theory Spec2Isabelle
  imports Complex_Main "HOL-Library.Word"
begin

section \<open>The real-time transcription relay\<close>

text \<open>
  A shallow embedding of \<^verbatim>\<open>backend/api/consumers/transcription_consumer.py\<close>
  (class \<^verbatim>\<open>TranscriptionConsumer\<close>), of the three \<^verbatim>\<open>mark_as_*\<close> methods of
  \<^verbatim>\<open>Transcription\<close> in \<^verbatim>\<open>backend/api/models.py\<close>, of
  \<^verbatim>\<open>backend/api/middleware/websocket_auth.py\<close> and of the entry of
  \<^verbatim>\<open>SarvamAIService.transcribe_audio_stream\<close>.

  The consumer object is a record; the database table, the clock, the socket and the log of
  recognition calls form a second record, the world. Every method takes the pair and
  returns the updated pair. Library functions the code calls (the JSON parser, the base64
  decoder, \<^verbatim>\<open>str()\<close>, the JWT verifier, the HTTP request to the recognition
  engine) are fields of an environment record.
\<close>

subsection \<open>Strings, bytes and JSON values\<close>

text \<open>
  A Python \<^verbatim>\<open>str\<close> is a list of code points; \<open>u\<close> embeds a literal.
  A \<^verbatim>\<open>bytes\<close> value is a list of 8-bit words.
\<close>

type_synonym ustring = "nat list"
type_synonym byte = "8 word"

definition u :: "string \<Rightarrow> ustring" where
  "u s = map of_char s"

text \<open>The code points for which \<^verbatim>\<open>str.isspace\<close> holds; \<^verbatim>\<open>str.strip()\<close> removes them at both ends.\<close>

definition isspace :: "nat \<Rightarrow> bool" where
  "isspace c \<longleftrightarrow>
     (9 \<le> c \<and> c \<le> 13) \<or> (28 \<le> c \<and> c \<le> 32) \<or> c = 133 \<or> c = 160 \<or> c = 5760
     \<or> (8192 \<le> c \<and> c \<le> 8202) \<or> c = 8232 \<or> c = 8233 \<or> c = 8239 \<or> c = 8287 \<or> c = 12288"

definition strip :: "ustring \<Rightarrow> ustring" where
  "strip s = rev (dropWhile isspace (rev (dropWhile isspace s)))"

text \<open>
  What \<^verbatim>\<open>json.loads\<close> returns. A float is kept as its lexeme: the code never
  computes with one. A dict is the list of its items.
\<close>

datatype json =
    JNull
  | JBool bool
  | JInt int
  | JFloat ustring
  | JString ustring
  | JList "json list"
  | JDict "(ustring \<times> json) list"

text \<open>\<^verbatim>\<open>data.get(key)\<close> and \<^verbatim>\<open>data.get(key, default)\<close> on a dict.\<close>

definition dict_get :: "(ustring \<times> json) list \<Rightarrow> ustring \<Rightarrow> json \<Rightarrow> json" where
  "dict_get d k dflt = (case map_of d k of None \<Rightarrow> dflt | Some v \<Rightarrow> v)"

text \<open>The name Python prints for the type of a decoded value, as in an \<^verbatim>\<open>AttributeError\<close>.\<close>

fun type_name :: "json \<Rightarrow> ustring" where
  "type_name JNull = u ''NoneType''"
| "type_name (JBool _) = u ''bool''"
| "type_name (JInt _) = u ''int''"
| "type_name (JFloat _) = u ''float''"
| "type_name (JString _) = u ''str''"
| "type_name (JList _) = u ''list''"
| "type_name (JDict _) = u ''dict''"

definition attribute_error :: "json \<Rightarrow> ustring" where
  "attribute_error v = u [CHR 0x27] @ type_name v @ u [CHR 0x27] @ u '' object has no attribute '' @ u [CHR 0x27] @ u ''get'' @ u [CHR 0x27]"

subsection \<open>Users, records and frames\<close>

datatype user = AnonymousUser | User (user_id: nat) (username: ustring)

fun is_authenticated :: "user \<Rightarrow> bool" where
  "is_authenticated AnonymousUser = False"
| "is_authenticated (User _ _) = True"

datatype status = Pending | Processing | Completed | Failed

text \<open>The columns of \<^verbatim>\<open>Transcription\<close> that the relay reads or writes.\<close>

record transcription =
  t_user :: user
  t_language_code :: json
  transcription_text :: ustring
  confidence_score :: "real option"
  status :: status
  error_message :: ustring
  t_session_id :: "ustring option"
  started_at :: "nat option"
  completed_at :: "nat option"

text \<open>The frames the server sends, one constructor for each \<^verbatim>\<open>'type'\<close>.\<close>

datatype out_frame =
    Connected (c_session_id: ustring) (c_message: ustring)
  | Config_confirmed (cc_language_code: json) (cc_transcription_id: "nat option")
  | Transcription (tr_text: ustring) (tr_full_text: ustring) (tr_is_final: bool)
  | Final (f_text: ustring) (f_transcription_id: "nat option") (f_language_code: json)
  | Error (e_message: ustring)

text \<open>The dict \<^verbatim>\<open>transcribe_audio_stream\<close> returns: \<^verbatim>\<open>success\<close> with the transcript, or not, with the error.\<close>

datatype result = Success ustring | Failure ustring

text \<open>A call that either returns a value or raises an exception with the text \<^verbatim>\<open>str(e)\<close>; both carry the state reached.\<close>

datatype ('a, 's) completion = Returns 'a 's | Raises ustring 's

subsection \<open>The consumer, the world and the environment\<close>

record consumer =
  user :: "user option"
  session_id :: "ustring option"
  language_code :: json
  transcription_id :: "nat option"
  audio_buffer :: "byte list"
  full_transcription :: ustring

text \<open>
  \<open>objects\<close> is the table of \<^verbatim>\<open>Transcription\<close> rows by primary key and
  \<open>next_id\<close> the key the next insert gets; \<open>now\<close> is what \<^verbatim>\<open>timezone.now()\<close>
  returns; \<open>accepted\<close> and \<open>close_code\<close> are the socket; \<open>sent\<close> lists the frames
  sent to the client, oldest first; \<open>calls\<close> lists the recognition calls made, oldest
  first, each with its audio, its language and its outcome.
\<close>

record world =
  objects :: "nat \<rightharpoonup> transcription"
  next_id :: nat
  now :: nat
  accepted :: bool
  close_code :: "nat option"
  sent :: "out_frame list"
  calls :: "(byte list \<times> json \<times> (ustring + result)) list"

type_synonym state = "consumer \<times> world"

text \<open>
  The library and the remote services. \<open>json_loads\<close> and \<open>b64decode\<close> return
  \<open>Inl\<close> with the exception's text when they raise. \<open>speech_to_text n audio lang\<close> is the
  outcome of the HTTP request of the recognition call number \<open>n\<close> of the session:
  \<open>Inr\<close> the transcript, \<open>Inl\<close> the text of the exception.
  \<open>access_token\<close> verifies a JWT and yields its \<^verbatim>\<open>user_id\<close>; \<open>users\<close> is the user table.
\<close>

record env =
  json_loads :: "ustring \<Rightarrow> ustring + json"
  b64decode :: "json \<Rightarrow> ustring + byte list"
  py_str :: "json \<Rightarrow> ustring"
  uuid4 :: ustring
  create_error :: ustring
  api_key :: ustring
  speech_to_text :: "nat \<Rightarrow> byte list \<Rightarrow> json \<Rightarrow> ustring + ustring"
  access_token :: "ustring \<Rightarrow> ustring + nat"
  users :: "nat \<rightharpoonup> user"

text \<open>\<^verbatim>\<open>TranscriptionConsumer.__init__\<close>.\<close>

definition init_consumer :: consumer where
  "init_consumer = \<lparr>user = None, session_id = None, language_code = JString (u ''hi-IN''),
     transcription_id = None, audio_buffer = [], full_transcription = []\<rparr>"

subsection \<open>The model methods (models.py)\<close>

definition mark_as_processing :: "nat \<Rightarrow> transcription \<Rightarrow> transcription" where
  "mark_as_processing t r = r\<lparr>status := Processing, started_at := Some t\<rparr>"

definition mark_as_completed :: "nat \<Rightarrow> ustring \<Rightarrow> real option \<Rightarrow> transcription \<Rightarrow> transcription" where
  "mark_as_completed t text confidence r =
     r\<lparr>status := Completed, transcription_text := text, confidence_score := confidence,
       completed_at := Some t\<rparr>"

definition mark_as_failed :: "nat \<Rightarrow> ustring \<Rightarrow> transcription \<Rightarrow> transcription" where
  "mark_as_failed t msg r = r\<lparr>status := Failed, error_message := msg, completed_at := Some t\<rparr>"

text \<open>\<^verbatim>\<open>Transcription.objects.get(id=...)\<close>: \<open>None\<close> stands for \<^verbatim>\<open>DoesNotExist\<close>.\<close>

definition objects_get :: "world \<Rightarrow> nat option \<Rightarrow> (nat \<times> transcription) option" where
  "objects_get w tid =
     (case tid of None \<Rightarrow> None
      | Some i \<Rightarrow> (case objects w i of None \<Rightarrow> None | Some r \<Rightarrow> Some (i, r)))"

definition save :: "nat \<Rightarrow> transcription \<Rightarrow> world \<Rightarrow> world" where
  "save i r w = w\<lparr>objects := (objects w)(i \<mapsto> r)\<rparr>"

subsection \<open>The recognition service (sarvam_service.py)\<close>

definition is_available :: "env \<Rightarrow> bool" where
  "is_available e \<longleftrightarrow> api_key e \<noteq> []"

definition transcribe_audio_stream :: "env \<Rightarrow> nat \<Rightarrow> byte list \<Rightarrow> json \<Rightarrow> ustring + result" where
  "transcribe_audio_stream e n audio_data lang =
     (if \<not> is_available e
      then Inl (u ''SarvamAI service is not available. Check API key configuration.'')
      else (case speech_to_text e n audio_data lang of
              Inr transcript \<Rightarrow> Inr (Success transcript)
            | Inl err \<Rightarrow> Inr (Failure err)))"

subsection \<open>The consumer (transcription_consumer.py)\<close>

definition send :: "out_frame \<Rightarrow> world \<Rightarrow> world" where
  "send f w = w\<lparr>sent := sent w @ [f]\<rparr>"

text \<open>The truth value of \<^verbatim>\<open>self.transcription_id\<close>: \<^verbatim>\<open>None\<close> and \<^verbatim>\<open>0\<close> are false.\<close>

definition truthy_id :: "nat option \<Rightarrow> bool" where
  "truthy_id tid = (case tid of None \<Rightarrow> False | Some i \<Rightarrow> i \<noteq> 0)"

definition create_transcription :: "env \<Rightarrow> state \<Rightarrow> (nat, state) completion" where
  "create_transcription e st =
     (case st of (s, w) \<Rightarrow>
        (case user s of
           Some (User uid name) \<Rightarrow>
             if language_code s = JNull then Raises (create_error e) (s, w)
             else
               let i = next_id w;
                   r = \<lparr>t_user = User uid name, t_language_code = language_code s,
                        transcription_text = [], confidence_score = None, status = Processing,
                        error_message = [], t_session_id = session_id s, started_at = None,
                        completed_at = None\<rparr>;
                   w1 = w\<lparr>objects := (objects w)(i \<mapsto> r), next_id := Suc i\<rparr>;
                   w2 = save i (mark_as_processing (now w1) r) w1
               in Returns i (s, w2)
         | _ \<Rightarrow> Raises (create_error e) (s, w)))"

definition update_transcription :: "consumer \<Rightarrow> ustring \<Rightarrow> bool \<Rightarrow> world \<Rightarrow> world" where
  "update_transcription s text is_partial w =
     (case objects_get w (transcription_id s) of
        None \<Rightarrow> w
      | Some (i, r) \<Rightarrow>
          save i (r\<lparr>transcription_text :=
                      (if is_partial then strip (transcription_text r @ u '' '' @ text) else text)\<rparr>) w)"

definition mark_transcription_completed :: "consumer \<Rightarrow> world \<Rightarrow> world" where
  "mark_transcription_completed s w =
     (case objects_get w (transcription_id s) of
        None \<Rightarrow> w
      | Some (i, r) \<Rightarrow> save i (mark_as_completed (now w) (strip (full_transcription s)) None r) w)"

definition mark_transcription_failed :: "consumer \<Rightarrow> ustring \<Rightarrow> world \<Rightarrow> world" where
  "mark_transcription_failed s error_msg w =
     (case objects_get w (transcription_id s) of
        None \<Rightarrow> w
      | Some (i, r) \<Rightarrow> save i (mark_as_failed (now w) error_msg r) w)"

text \<open>The consumer's \<^verbatim>\<open>transcribe_audio\<close>: the call is appended to the log with its outcome.\<close>

definition transcribe_audio :: "env \<Rightarrow> consumer \<Rightarrow> byte list \<Rightarrow> world \<Rightarrow> (ustring + result) \<times> world" where
  "transcribe_audio e s audio_data w =
     (let res = transcribe_audio_stream e (length (calls w)) audio_data (language_code s)
      in (res, w\<lparr>calls := calls w @ [(audio_data, language_code s, res)]\<rparr>))"

definition send_error :: "ustring \<Rightarrow> state \<Rightarrow> state" where
  "send_error message st =
     (case st of (s, w) \<Rightarrow>
        let w1 = send (Error message) w
        in if truthy_id (transcription_id s) then (s, mark_transcription_failed s message w1)
           else (s, w1))"

definition process_audio_buffer :: "env \<Rightarrow> state \<Rightarrow> state" where
  "process_audio_buffer e st =
     (case st of (s, w) \<Rightarrow>
        let audio_data = audio_buffer s;
            s1 = s\<lparr>audio_buffer := []\<rparr>
        in (case transcribe_audio e s1 audio_data w of
              (Inl exn, w1) \<Rightarrow> send_error (u ''Processing error: '' @ exn) (s1, w1)
            | (Inr (Success text), w1) \<Rightarrow>
                let s2 = s1\<lparr>full_transcription := full_transcription s1 @ text @ u '' ''\<rparr>;
                    w2 = update_transcription s2 text True w1;
                    w3 = send (Transcription text (strip (full_transcription s2)) False) w2
                in (s2, w3)
            | (Inr (Failure error_msg), w1) \<Rightarrow>
                send_error (u ''Transcription error: '' @ error_msg) (s1, w1)))"

definition handle_config :: "env \<Rightarrow> (ustring \<times> json) list \<Rightarrow> state \<Rightarrow> (unit, state) completion" where
  "handle_config e data st =
     (case st of (s, w) \<Rightarrow>
        let s1 = s\<lparr>language_code := dict_get data (u ''language_code'') (JString (u ''hi-IN''))\<rparr>
        in (case create_transcription e (s1, w) of
              Raises exn st' \<Rightarrow> Raises exn st'
            | Returns i (s2, w2) \<Rightarrow>
                let s3 = s2\<lparr>transcription_id := Some i\<rparr>
                in Returns () (s3, send (Config_confirmed (language_code s3) (transcription_id s3)) w2)))"

definition handle_audio_binary :: "env \<Rightarrow> byte list \<Rightarrow> state \<Rightarrow> state" where
  "handle_audio_binary e audio_bytes st =
     (case st of (s, w) \<Rightarrow>
        let s1 = s\<lparr>audio_buffer := audio_buffer s @ audio_bytes\<rparr>
        in if length (audio_buffer s1) \<ge> 32000 then process_audio_buffer e (s1, w) else (s1, w))"

definition handle_audio :: "env \<Rightarrow> (ustring \<times> json) list \<Rightarrow> state \<Rightarrow> state" where
  "handle_audio e data st =
     (case st of (s, w) \<Rightarrow>
        (case b64decode e (dict_get data (u ''data'') (JString [])) of
           Inl exn \<Rightarrow> send_error (u ''Error processing audio: '' @ exn) (s, w)
         | Inr audio_bytes \<Rightarrow>
             let s1 = s\<lparr>audio_buffer := audio_buffer s @ audio_bytes\<rparr>
             in if length (audio_buffer s1) \<ge> 32000 then process_audio_buffer e (s1, w)
                else (s1, w)))"

definition handle_end :: "env \<Rightarrow> state \<Rightarrow> state" where
  "handle_end e st =
     (case (if length (audio_buffer (fst st)) > 0 then process_audio_buffer e st else st) of
        (s1, w1) \<Rightarrow>
          let w2 = mark_transcription_completed s1 w1
          in (s1, send (Final (strip (full_transcription s1)) (transcription_id s1)
                          (language_code s1)) w2))"

definition receive :: "env \<Rightarrow> ustring option \<Rightarrow> byte list option \<Rightarrow> state \<Rightarrow> state" where
  "receive e text_data bytes_data st =
     (if text_data \<noteq> None \<and> text_data \<noteq> Some [] then
        (case json_loads e (the text_data) of
           Inl exn \<Rightarrow> send_error (u ''Invalid JSON format'') st
         | Inr (JDict data) \<Rightarrow>
             let message_type = dict_get data (u ''type'') JNull
             in if message_type = JString (u ''config'') then
                  (case handle_config e data st of
                     Returns _ st' \<Rightarrow> st'
                   | Raises exn st' \<Rightarrow> send_error (u ''Error processing message: '' @ exn) st')
                else if message_type = JString (u ''audio'') then handle_audio e data st
                else if message_type = JString (u ''end'') then handle_end e st
                else send_error (u ''Unknown message type: '' @ py_str e message_type) st
         | Inr v \<Rightarrow> send_error (u ''Error processing message: '' @ attribute_error v) st)
      else if bytes_data \<noteq> None \<and> bytes_data \<noteq> Some [] then
        handle_audio_binary e (the bytes_data) st
      else st)"

definition disconnect :: "state \<Rightarrow> state" where
  "disconnect st = (case st of (s, w) \<Rightarrow> (s\<lparr>audio_buffer := []\<rparr>, w))"

subsection \<open>Connection setup (websocket_auth.py and connect)\<close>

text \<open>
  The scope of a connection: \<open>query_token\<close> is
  \<^verbatim>\<open>parse_qs(query_string).get('token', [None])[0]\<close> and \<open>scope_user\<close> the entry
  \<^verbatim>\<open>scope['user']\<close>.
\<close>

record scope =
  query_token :: "ustring option"
  scope_user :: "user option"

definition get_user_from_token :: "env \<Rightarrow> ustring \<Rightarrow> user" where
  "get_user_from_token e token_string =
     (case access_token e token_string of
        Inl exn \<Rightarrow> AnonymousUser
      | Inr uid \<Rightarrow> (case users e uid of None \<Rightarrow> AnonymousUser | Some usr \<Rightarrow> usr))"

definition JWTAuthMiddleware_call :: "env \<Rightarrow> scope \<Rightarrow> scope" where
  "JWTAuthMiddleware_call e sc =
     (case query_token sc of
        None \<Rightarrow> sc\<lparr>scope_user := Some AnonymousUser\<rparr>
      | Some token \<Rightarrow>
          if token \<noteq> [] then sc\<lparr>scope_user := Some (get_user_from_token e token)\<rparr>
          else sc\<lparr>scope_user := Some AnonymousUser\<rparr>)"

definition close :: "nat \<Rightarrow> world \<Rightarrow> world" where
  "close code w = w\<lparr>close_code := Some code\<rparr>"

definition accept :: "world \<Rightarrow> world" where
  "accept w = w\<lparr>accepted := True\<rparr>"

definition connect :: "env \<Rightarrow> scope \<Rightarrow> state \<Rightarrow> state" where
  "connect e sc st =
     (case st of (s, w) \<Rightarrow>
        let usr = (case scope_user sc of None \<Rightarrow> AnonymousUser | Some x \<Rightarrow> x);
            s1 = s\<lparr>user := Some usr\<rparr>
        in if usr = AnonymousUser \<or> \<not> is_authenticated usr then (s1, close 4001 w)
           else
             let s2 = s1\<lparr>session_id := Some (uuid4 e)\<rparr>;
                 w1 = accept w
             in (s2, send (Connected (uuid4 e) (u ''Connected to transcription service'')) w1))"

subsection \<open>The transport\<close>

text \<open>A frame as it arrives from the socket: textual or binary.\<close>

datatype frame = Text_frame ustring | Binary_frame "byte list"

fun deliver :: "env \<Rightarrow> frame \<Rightarrow> state \<Rightarrow> state" where
  "deliver e (Text_frame t) st = receive e (Some t) None st"
| "deliver e (Binary_frame b) st = receive e None (Some b) st"

fun deliver_all :: "env \<Rightarrow> frame list \<Rightarrow> state \<Rightarrow> state" where
  "deliver_all e [] st = st"
| "deliver_all e (f # fs) st = deliver_all e fs (deliver e f st)"

text \<open>
  The Channels runtime, the library that calls the consumer. It runs the middleware and
  \<^verbatim>\<open>connect\<close>; frames reach \<^verbatim>\<open>receive\<close>, one after the other, only on a connection
  that \<^verbatim>\<open>connect\<close> accepted and did not close.
\<close>

definition serve :: "env \<Rightarrow> scope \<Rightarrow> frame list \<Rightarrow> world \<Rightarrow> state" where
  "serve e sc frames w =
     (case connect e (JWTAuthMiddleware_call e sc) (init_consumer, w) of
        (s, w1) \<Rightarrow> if accepted w1 \<and> close_code w1 = None then deliver_all e frames (s, w1)
                   else (s, w1))"

text \<open>A world before any connection: an empty table whose keys start at 1.\<close>

definition fresh_world :: "nat \<Rightarrow> world" where
  "fresh_world t = \<lparr>objects = Map.empty, next_id = 1, now = t, accepted = False,
     close_code = None, sent = [], calls = []\<rparr>"

subsection \<open>Derived notions\<close>

text \<open>The audio bytes a frame adds to the buffer: none when it is not audio or does not decode.\<close>

fun payload :: "env \<Rightarrow> frame \<Rightarrow> byte list" where
  "payload e (Binary_frame b) = b"
| "payload e (Text_frame t) =
     (if t = [] then []
      else (case json_loads e t of
              Inr (JDict data) \<Rightarrow>
                if dict_get data (u ''type'') JNull = JString (u ''audio'') then
                  (case b64decode e (dict_get data (u ''data'') (JString [])) of
                     Inr b \<Rightarrow> b | Inl _ \<Rightarrow> [])
                else []
            | _ \<Rightarrow> []))"

text \<open>All the audio handed to the recognition service so far, in order.\<close>

definition dispatched :: "world \<Rightarrow> byte list" where
  "dispatched w = concat (map fst (calls w))"

text \<open>The transcripts of the successful recognition calls, in the order of the calls.\<close>

definition recognized :: "(byte list \<times> json \<times> (ustring + result)) list \<Rightarrow> ustring list" where
  "recognized cs =
     concat (map (\<lambda>(audio, lang, res). case res of Inr (Success t) \<Rightarrow> [t] | _ \<Rightarrow> []) cs)"

text \<open>The \<^verbatim>\<open>text\<close> and \<^verbatim>\<open>full_text\<close> of the transcription frames sent, in order.\<close>

definition partials :: "out_frame list \<Rightarrow> (ustring \<times> ustring) list" where
  "partials fs =
     concat (map (\<lambda>f. case f of Transcription t ft fin \<Rightarrow> [(t, ft)] | _ \<Rightarrow> []) fs)"

text \<open>\<^verbatim>\<open>" ".join(ts)\<close>: the texts with one space between neighbours.\<close>

fun space_join :: "ustring list \<Rightarrow> ustring" where
  "space_join [] = []"
| "space_join [t] = t"
| "space_join (t # t' # ts) = t @ u '' '' @ space_join (t' # ts)"

text \<open>What the consumer accumulates: every text followed by a space.\<close>

definition accumulated :: "ustring list \<Rightarrow> ustring" where
  "accumulated ts = concat (map (\<lambda>t. t @ u '' '') ts)"

text \<open>
  The invariant behind the running transcript: the consumer holds the accumulated
  transcripts, and the \<open>k\<close>-th transcription frame carried the \<open>k\<close>-th transcript and
  the trimmed accumulation of the first \<open>k\<close>.
\<close>

definition ordered :: "state \<Rightarrow> bool" where
  "ordered st \<longleftrightarrow>
     full_transcription (fst st) = accumulated (recognized (calls (snd st))) \<and>
     partials (sent (snd st)) =
       map (\<lambda>k. (recognized (calls (snd st)) ! k,
                 strip (accumulated (take (Suc k) (recognized (calls (snd st)))))))
         [0..<length (recognized (calls (snd st)))]"

text \<open>The keys in use are below the key the next insert gets.\<close>

definition store_ok :: "world \<Rightarrow> bool" where
  "store_ok w \<longleftrightarrow> dom (objects w) \<subseteq> {..<next_id w}"

text \<open>
  How a well-formed table may change: no row disappears, and a row's status stays or
  becomes \<open>Completed\<close> or \<open>Failed\<close>.
\<close>

definition evolves :: "world \<Rightarrow> world \<Rightarrow> bool" where
  "evolves w w' \<longleftrightarrow>
     (store_ok w \<longrightarrow>
        store_ok w' \<and>
        (\<forall>i r. objects w i = Some r \<longrightarrow>
           (\<exists>r'. objects w' i = Some r' \<and>
              (status r' = status r \<or> status r' = Completed \<or> status r' = Failed))))"

subsection \<open>Concrete inputs\<close>

text \<open>A second of silence and a second of noise, 32000 bytes each.\<close>

definition second_of_audio :: "byte list" where
  "second_of_audio = replicate 32000 0"

definition second_of_noise :: "byte list" where
  "second_of_noise = replicate 32000 255"

text \<open>
  An environment for running the model on examples: a JSON parser that knows four texts, a
  base64 decoder that knows one payload, a configured API key, a recognition engine that
  fails on the second of noise, and one user whose token is \<open>good\<close>.
\<close>

definition demo_env :: env where
  \<open>demo_env = \<lparr>
     json_loads = (\<lambda>t.
       if t = u ''{"type": "config", "language_code": "ta-IN"}'' then
         Inr (JDict [(u ''type'', JString (u ''config'')), (u ''language_code'', JString (u ''ta-IN''))])
       else if t = u ''{"type": "audio", "data": "AAEC"}'' then
         Inr (JDict [(u ''type'', JString (u ''audio'')), (u ''data'', JString (u ''AAEC''))])
       else if t = u ''{"type": "end"}'' then
         Inr (JDict [(u ''type'', JString (u ''end''))])
       else if t = u ''{"type": "ping"}'' then
         Inr (JDict [(u ''type'', JString (u ''ping''))])
       else Inl (u ''Expecting value: line 1 column 1 (char 0)'')),
     b64decode = (\<lambda>v. if v = JString (u ''AAEC'') then Inr [0, 1, 2]
                       else Inl (u ''Incorrect padding'')),
     py_str = (\<lambda>v. case v of JString x \<Rightarrow> x | _ \<Rightarrow> u ''None''),
     uuid4 = u ''3f2b8c1e-5d4a-4e0b-9c6f-7a1d2e3f4b5c'',
     create_error = u ''NOT NULL constraint failed: api_transcription.language_code'',
     api_key = u ''sk_demo'',
     speech_to_text = (\<lambda>n audio lang.
       if audio = second_of_noise then Inl (u ''503 Server Error: Service Unavailable'')
       else if n = 0 then Inr (u ''vanakkam'') else Inr (u ''nanri'')),
     access_token = (\<lambda>t. if t = u ''good'' then Inr 7
                          else Inl (u ''Token is invalid or expired'')),
     users = [7 \<mapsto> User 7 (u ''asha'')]\<rparr>\<close>

text \<open>Four textual frames: a configuration, an unknown message, the end, and a truncated one.\<close>

definition config_text :: ustring where
  \<open>config_text = u ''{"type": "config", "language_code": "ta-IN"}''\<close>

definition ping_text :: ustring where
  \<open>ping_text = u ''{"type": "ping"}''\<close>

definition end_text :: ustring where
  \<open>end_text = u ''{"type": "end"}''\<close>

definition bad_text :: ustring where
  \<open>bad_text = u ''{"type": ''\<close>

text \<open>A consumer right after an accepted connection of that user.\<close>

definition demo_consumer :: consumer where
  "demo_consumer = init_consumer\<lparr>user := Some (User 7 (u ''asha'')),
     session_id := Some (u ''3f2b8c1e-5d4a-4e0b-9c6f-7a1d2e3f4b5c'')\<rparr>"

text \<open>The row and the state that the configuration frame leaves behind at time 0.\<close>

definition demo_record :: transcription where
  "demo_record = \<lparr>t_user = User 7 (u ''asha''), t_language_code = JString (u ''ta-IN''),
     transcription_text = [], confidence_score = None, status = Processing, error_message = [],
     t_session_id = Some (u ''3f2b8c1e-5d4a-4e0b-9c6f-7a1d2e3f4b5c''), started_at = Some 0,
     completed_at = None\<rparr>"

definition configured :: state where
  "configured =
     (demo_consumer\<lparr>language_code := JString (u ''ta-IN''), transcription_id := Some 1\<rparr>,
      (fresh_world 0)\<lparr>objects := [1 \<mapsto> demo_record], next_id := 2,
        sent := [Config_confirmed (JString (u ''ta-IN'')) (Some 1)]\<rparr>)"

text \<open>Three binary frames, the second of them noise, sent to a fresh session.\<close>

definition three_flushes :: state where
  "three_flushes =
     deliver_all demo_env
       [Binary_frame second_of_audio, Binary_frame second_of_noise, Binary_frame second_of_audio]
       (demo_consumer, fresh_world 0)"

section \<open>Properties\<close>

subsection \<open>Auxiliary facts: strings\<close>

lemma u_inject [simp]: "u a = u b \<longleftrightarrow> a = b"
  unfolding u_def by (simp add: inj_map_eq_map inj_on_def)

lemma u_Nil [simp]: "u a = [] \<longleftrightarrow> a = []" "[] = u a \<longleftrightarrow> a = []"
  unfolding u_def by simp_all

lemma u_append: "u (a @ b) = u a @ u b"
  by (simp add: u_def)

lemma dropWhile_isspace_snoc:
  "isspace c \<Longrightarrow> strip (s @ [c]) = strip s"
  by (simp add: strip_def dropWhile_append dropWhile_eq_Nil_conv [THEN iffD2])

lemma accumulated_snoc: "accumulated (ts @ [t]) = accumulated ts @ t @ u '' ''"
  by (simp add: accumulated_def)

lemma accumulated_space_join:
  "ts \<noteq> [] \<Longrightarrow> accumulated ts = space_join ts @ u '' ''"
  by (induction ts rule: space_join.induct) (simp_all add: accumulated_def)

lemma strip_accumulated: "strip (accumulated ts) = strip (space_join ts)"
proof (cases "ts = []")
  case True
  then show ?thesis by (simp add: accumulated_def)
next
  case False
  have "isspace 32" by (simp add: isspace_def)
  moreover have "u '' '' = [32]" by (simp add: u_def)
  ultimately show ?thesis
    using False by (simp add: accumulated_space_join dropWhile_isspace_snoc)
qed

subsection \<open>Auxiliary facts: what each method changes\<close>

lemmas store_defs = objects_get_def save_def mark_as_failed_def mark_as_completed_def
  mark_as_processing_def

lemma send_fields [simp]:
  "sent (send f w) = sent w @ [f]"
  "calls (send f w) = calls w"
  "objects (send f w) = objects w"
  "next_id (send f w) = next_id w"
  "now (send f w) = now w"
  "accepted (send f w) = accepted w"
  "close_code (send f w) = close_code w"
  by (simp_all add: send_def)

lemma mark_transcription_completed_fields [simp]:
  "sent (mark_transcription_completed s w) = sent w"
  "calls (mark_transcription_completed s w) = calls w"
  "next_id (mark_transcription_completed s w) = next_id w"
  "now (mark_transcription_completed s w) = now w"
  "accepted (mark_transcription_completed s w) = accepted w"
  "close_code (mark_transcription_completed s w) = close_code w"
  by (simp_all add: mark_transcription_completed_def store_defs split: option.splits)

lemma update_transcription_fields [simp]:
  "sent (update_transcription s t p w) = sent w"
  "calls (update_transcription s t p w) = calls w"
  "next_id (update_transcription s t p w) = next_id w"
  "now (update_transcription s t p w) = now w"
  "accepted (update_transcription s t p w) = accepted w"
  "close_code (update_transcription s t p w) = close_code w"
  by (simp_all add: update_transcription_def store_defs split: option.splits)

lemma send_error_eq:
  "send_error m (s, w) =
     (s, w\<lparr>sent := sent w @ [Error m],
           objects := (case transcription_id s of
                         None \<Rightarrow> objects w
                       | Some i \<Rightarrow> (if i = 0 then objects w
                                   else (case objects w i of
                                           None \<Rightarrow> objects w
                                         | Some r \<Rightarrow> (objects w)(i \<mapsto> mark_as_failed (now w) m r))))\<rparr>)"
  by (simp add: send_error_def send_def mark_transcription_failed_def objects_get_def save_def
      truthy_id_def Let_def split: option.splits)

lemma send_error_fst [simp]: "fst (send_error m st) = fst st"
  by (cases st) (simp add: send_error_eq)

lemma send_error_calls [simp]: "calls (snd (send_error m st)) = calls (snd st)"
  by (cases st) (simp add: send_error_eq)

lemma send_error_sent [simp]: "sent (snd (send_error m st)) = sent (snd st) @ [Error m]"
  by (cases st) (simp add: send_error_eq)

lemma send_error_socket [simp]:
  "close_code (snd (send_error m st)) = close_code (snd st)"
  "accepted (snd (send_error m st)) = accepted (snd st)"
  "next_id (snd (send_error m st)) = next_id (snd st)"
  "now (snd (send_error m st)) = now (snd st)"
  by (cases st, simp add: send_error_eq)+

lemma send_error_objects_failed:
  assumes "transcription_id s = Some i" and "i \<noteq> 0" and "objects w i = Some r"
  shows "objects (snd (send_error m (s, w))) =
           (objects w)(i \<mapsto> r\<lparr>status := Failed, error_message := m, completed_at := Some (now w)\<rparr>)"
  using assms by (simp add: send_error_eq mark_as_failed_def)

lemma process_audio_buffer_eq:
  "process_audio_buffer e (s, w) =
     (let out = transcribe_audio_stream e (length (calls w)) (audio_buffer s) (language_code s);
          s1 = s\<lparr>audio_buffer := []\<rparr>;
          w1 = w\<lparr>calls := calls w @ [(audio_buffer s, language_code s, out)]\<rparr>
      in case out of
           Inl exn \<Rightarrow> send_error (u ''Processing error: '' @ exn) (s1, w1)
         | Inr (Success t) \<Rightarrow>
             (s1\<lparr>full_transcription := full_transcription s @ t @ u '' ''\<rparr>,
              send (Transcription t (strip (full_transcription s @ t @ u '' '')) False)
                (update_transcription s t True w1))
         | Inr (Failure m) \<Rightarrow> send_error (u ''Transcription error: '' @ m) (s1, w1))"
  by (simp add: process_audio_buffer_def transcribe_audio_def Let_def update_transcription_def
      split: sum.splits result.splits)

lemma process_audio_buffer_buffer [simp]:
  "audio_buffer (fst (process_audio_buffer e (s, w))) = []"
  by (simp add: process_audio_buffer_eq Let_def split: sum.splits result.splits)

lemma process_audio_buffer_calls [simp]:
  "calls (snd (process_audio_buffer e (s, w))) =
     calls w @ [(audio_buffer s, language_code s,
                 transcribe_audio_stream e (length (calls w)) (audio_buffer s) (language_code s))]"
  by (simp add: process_audio_buffer_eq Let_def split: sum.splits result.splits)

lemma process_audio_buffer_socket [simp]:
  "close_code (snd (process_audio_buffer e (s, w))) = close_code w"
  "accepted (snd (process_audio_buffer e (s, w))) = accepted w"
  "next_id (snd (process_audio_buffer e (s, w))) = next_id w"
  "now (snd (process_audio_buffer e (s, w))) = now w"
  by (simp_all add: process_audio_buffer_eq Let_def split: sum.splits result.splits)

lemma process_audio_buffer_consumer [simp]:
  "language_code (fst (process_audio_buffer e (s, w))) = language_code s"
  "transcription_id (fst (process_audio_buffer e (s, w))) = transcription_id s"
  "user (fst (process_audio_buffer e (s, w))) = user s"
  "session_id (fst (process_audio_buffer e (s, w))) = session_id s"
  by (simp_all add: process_audio_buffer_eq Let_def split: sum.splits result.splits)

lemma process_audio_buffer_full:
  "full_transcription (fst (process_audio_buffer e (s, w))) =
     (case transcribe_audio_stream e (length (calls w)) (audio_buffer s) (language_code s) of
        Inr (Success t) \<Rightarrow> full_transcription s @ t @ u '' ''
      | _ \<Rightarrow> full_transcription s)"
  by (simp add: process_audio_buffer_def transcribe_audio_def Let_def
      split: sum.splits result.splits)

lemma process_audio_buffer_sent:
  "sent (snd (process_audio_buffer e (s, w))) =
     sent w @
     [case transcribe_audio_stream e (length (calls w)) (audio_buffer s) (language_code s) of
        Inr (Success t) \<Rightarrow> Transcription t (strip (full_transcription s @ t @ u '' '')) False
      | Inr (Failure m) \<Rightarrow> Error (u ''Transcription error: '' @ m)
      | Inl exn \<Rightarrow> Error (u ''Processing error: '' @ exn)]"
  by (simp add: process_audio_buffer_def transcribe_audio_def Let_def
      split: sum.splits result.splits)

lemma process_audio_buffer_dom:
  "dom (objects (snd (process_audio_buffer e (s, w)))) = dom (objects w)"
  by (auto simp: process_audio_buffer_eq Let_def send_error_eq update_transcription_def
      store_defs split: sum.splits result.splits option.splits if_splits)

lemma handle_config_cases:
  "handle_config e data (s, w) =
     (let s1 = s\<lparr>language_code := dict_get data (u ''language_code'') (JString (u ''hi-IN''))\<rparr>
      in if (\<exists>uid name. user s = Some (User uid name)) \<and> language_code s1 \<noteq> JNull
         then Returns ()
           (s1\<lparr>transcription_id := Some (next_id w)\<rparr>,
            w\<lparr>objects := (objects w)(next_id w \<mapsto>
                  \<lparr>t_user = the (user s), t_language_code = language_code s1,
                   transcription_text = [], confidence_score = None, status = Processing,
                   error_message = [], t_session_id = session_id s,
                   started_at = Some (now w), completed_at = None\<rparr>),
              next_id := Suc (next_id w),
              sent := sent w @ [Config_confirmed (language_code s1) (Some (next_id w))]\<rparr>)
         else Raises (create_error e) (s1, w))"
  by (auto simp: handle_config_def create_transcription_def Let_def store_defs send_def
      split: option.splits user.splits)

lemma handle_end_eq:
  "handle_end e st =
     (let st1 = (if audio_buffer (fst st) \<noteq> [] then process_audio_buffer e st else st)
      in (fst st1,
          send (Final (strip (full_transcription (fst st1))) (transcription_id (fst st1))
                  (language_code (fst st1)))
            (mark_transcription_completed (fst st1) (snd st1))))"
  by (simp add: handle_end_def Let_def case_prod_beta)

lemma handle_end_buffer [simp]: "audio_buffer (fst (handle_end e st)) = []"
  by (cases st) (simp add: handle_end_eq Let_def)

lemma handle_end_calls:
  "calls (snd (handle_end e (s, w))) =
     (if audio_buffer s = [] then calls w
      else calls w @ [(audio_buffer s, language_code s,
             transcribe_audio_stream e (length (calls w)) (audio_buffer s) (language_code s))])"
  by (simp add: handle_end_eq Let_def)

lemma handle_audio_binary_calls:
  "calls (snd (handle_audio_binary e b st)) =
     (if 32000 \<le> length (audio_buffer (fst st) @ b)
      then calls (snd st) @ [(audio_buffer (fst st) @ b, language_code (fst st),
             transcribe_audio_stream e (length (calls (snd st))) (audio_buffer (fst st) @ b)
               (language_code (fst st)))]
      else calls (snd st))"
  by (cases st) (simp add: handle_audio_binary_def Let_def)

lemma handle_audio_binary_consumer:
  "audio_buffer (fst (handle_audio_binary e b st)) =
     (if 32000 \<le> length (audio_buffer (fst st) @ b) then [] else audio_buffer (fst st) @ b)"
  "language_code (fst (handle_audio_binary e b st)) = language_code (fst st)"
  by (cases st, simp add: handle_audio_binary_def Let_def)+

lemma receive_binary:
  "b \<noteq> [] \<Longrightarrow> receive e None (Some b) st = handle_audio_binary e b st"
  by (simp add: receive_def)

lemma receive_text:
  assumes "t \<noteq> []" and "json_loads e t = Inr (JDict data)"
  shows "receive e (Some t) bd st =
     (if dict_get data (u ''type'') JNull = JString (u ''config'') then
        (case handle_config e data st of
           Returns _ st' \<Rightarrow> st'
         | Raises exn st' \<Rightarrow> send_error (u ''Error processing message: '' @ exn) st')
      else if dict_get data (u ''type'') JNull = JString (u ''audio'') then handle_audio e data st
      else if dict_get data (u ''type'') JNull = JString (u ''end'') then handle_end e st
      else send_error (u ''Unknown message type: '' @ py_str e (dict_get data (u ''type'') JNull)) st)"
  using assms by (simp add: receive_def Let_def)

text \<open>
  A rule for properties of the state after \<^verbatim>\<open>receive\<close>: it is the state before, or the
  state after one of the handlers, or after \<^verbatim>\<open>send_error\<close>.
\<close>

lemma receive_cases [case_names ignored error config config_error audio binary ending]:
  assumes "P st"
    and "\<And>m. P (send_error m st)"
    and "\<And>data st'. handle_config e data st = Returns () st' \<Longrightarrow> P st'"
    and "\<And>data exn st' m. handle_config e data st = Raises exn st' \<Longrightarrow> P (send_error m st')"
    and "\<And>data. P (handle_audio e data st)"
    and "\<And>b. P (handle_audio_binary e b st)"
    and "P (handle_end e st)"
  shows "P (receive e td bd st)"
proof (cases "td \<noteq> None \<and> td \<noteq> Some []")
  case False
  then show ?thesis using assms(1,6) by (auto simp: receive_def)
next
  case True
  show ?thesis
  proof (cases "json_loads e (the td)")
    case (Inl exn)
    with True show ?thesis using assms(2) by (simp add: receive_def)
  next
    case (Inr v)
    show ?thesis
    proof (cases v)
      case (JDict data)
      show ?thesis
      proof (cases "handle_config e data st")
        case (Returns x st')
        with True Inr JDict show ?thesis using assms(2,3,5,7) by (simp add: receive_def Let_def)
      next
        case (Raises exn st')
        with True Inr JDict show ?thesis using assms(2,4,5,7) by (simp add: receive_def Let_def)
      qed
    qed (use True Inr assms(2) in \<open>simp_all add: receive_def\<close>)
  qed
qed

subsection \<open>Auxiliary facts: the concrete inputs\<close>

lemma demo_env_simps:
  "api_key demo_env = u ''sk_demo''"
  "speech_to_text demo_env n audio lang =
     (if audio = second_of_noise then Inl (u ''503 Server Error: Service Unavailable'')
      else if n = 0 then Inr (u ''vanakkam'') else Inr (u ''nanri''))"
  "b64decode demo_env v = (if v = JString (u ''AAEC'') then Inr [0, 1, 2]
                           else Inl (u ''Incorrect padding''))"
  "py_str demo_env v = (case v of JString x \<Rightarrow> x | _ \<Rightarrow> u ''None'')"
  "uuid4 demo_env = u ''3f2b8c1e-5d4a-4e0b-9c6f-7a1d2e3f4b5c''"
  "create_error demo_env = u ''NOT NULL constraint failed: api_transcription.language_code''"
  "access_token demo_env t = (if t = u ''good'' then Inr 7
                          else Inl (u ''Token is invalid or expired''))"
  "users demo_env = [7 \<mapsto> User 7 (u ''asha'')]"
  by (simp_all add: demo_env_def)

lemma demo_loads:
  "json_loads demo_env config_text =
     Inr (JDict [(u ''type'', JString (u ''config'')), (u ''language_code'', JString (u ''ta-IN''))])"
  "json_loads demo_env ping_text = Inr (JDict [(u ''type'', JString (u ''ping''))])"
  "json_loads demo_env end_text = Inr (JDict [(u ''type'', JString (u ''end''))])"
  "json_loads demo_env bad_text = Inl (u ''Expecting value: line 1 column 1 (char 0)'')"
  by (simp_all add: demo_env_def config_text_def ping_text_def end_text_def bad_text_def)

lemma demo_texts_nonempty:
  "config_text \<noteq> []" "ping_text \<noteq> []" "end_text \<noteq> []" "bad_text \<noteq> []"
  by (simp_all add: config_text_def ping_text_def end_text_def bad_text_def)

lemma second_of_audio_simps [simp]:
  "second_of_audio \<noteq> []" "length second_of_audio = 32000"
  "second_of_noise \<noteq> []" "length second_of_noise = 32000"
  "second_of_audio \<noteq> second_of_noise"
  by (simp_all add: second_of_audio_def second_of_noise_def)

lemma demo_outcomes:
  "transcribe_audio_stream demo_env 0 second_of_audio l = Inr (Success (u ''vanakkam''))"
  "transcribe_audio_stream demo_env (Suc n) second_of_audio l = Inr (Success (u ''nanri''))"
  "transcribe_audio_stream demo_env n second_of_noise l =
     Inr (Failure (u ''503 Server Error: Service Unavailable''))"
  by (simp_all add: transcribe_audio_stream_def is_available_def demo_env_simps)

lemma demo_consumer_simps:
  "audio_buffer demo_consumer = []" "full_transcription demo_consumer = []"
  "transcription_id demo_consumer = None" "language_code demo_consumer = JString (u ''hi-IN'')"
  "user demo_consumer = Some (User 7 (u ''asha''))"
  by (simp_all add: demo_consumer_def init_consumer_def)

lemma fresh_world_simps:
  "objects (fresh_world t) = Map.empty" "next_id (fresh_world t) = 1" "now (fresh_world t) = t"
  "accepted (fresh_world t) = False" "close_code (fresh_world t) = None"
  "sent (fresh_world t) = []" "calls (fresh_world t) = []"
  by (simp_all add: fresh_world_def)

lemma configured_simps:
  "audio_buffer (fst configured) = []" "full_transcription (fst configured) = []"
  "transcription_id (fst configured) = Some 1"
  "language_code (fst configured) = JString (u ''ta-IN'')"
  "user (fst configured) = Some (User 7 (u ''asha''))"
  "objects (snd configured) = [1 \<mapsto> demo_record]" "next_id (snd configured) = 2"
  "now (snd configured) = 0" "calls (snd configured) = []"
  "sent (snd configured) = [Config_confirmed (JString (u ''ta-IN'')) (Some 1)]"
  by (simp_all add: configured_def demo_consumer_simps fresh_world_simps)

text \<open>The configuration frame, sent to a fresh session, leads to the state \<open>configured\<close>.\<close>

lemma config_reaches_configured:
  "receive demo_env (Some config_text) None (demo_consumer, fresh_world 0) = configured"
  by (simp add: receive_text [OF demo_texts_nonempty(1) demo_loads(1)] dict_get_def
      handle_config_cases Let_def demo_consumer_def init_consumer_def fresh_world_def
      configured_def demo_record_def demo_env_simps)

lemma ping_fails_record:
  "receive demo_env (Some ping_text) None configured =
     (fst configured,
      (snd configured)\<lparr>sent := sent (snd configured) @ [Error (u ''Unknown message type: ping'')],
         objects := [1 \<mapsto> demo_record\<lparr>status := Failed,
                        error_message := u ''Unknown message type: ping'',
                        completed_at := Some 0\<rparr>]\<rparr>)"
  by (simp add: receive_text [OF demo_texts_nonempty(2) demo_loads(2)] dict_get_def
      send_error_eq mark_as_failed_def configured_def fresh_world_def demo_env_simps u_def)

subsection \<open>The flush threshold\<close>

lemma process_audio_buffer_conserves:
  "dispatched (snd (process_audio_buffer e st)) @ audio_buffer (fst (process_audio_buffer e st))
     = dispatched (snd st) @ audio_buffer (fst st)"
  by (cases st) (simp add: dispatched_def)

lemma send_error_conserves [simp]:
  "dispatched (snd (send_error m st)) = dispatched (snd st)"
  by (simp add: dispatched_def)

lemma handle_end_conserves [simp]:
  "dispatched (snd (handle_end e st)) = dispatched (snd st) @ audio_buffer (fst st)"
  by (cases st) (simp add: dispatched_def handle_end_calls)

lemma handle_config_conserves:
  "(case handle_config e data st of
      Returns _ st' \<Rightarrow> dispatched (snd st') = dispatched (snd st)
                         \<and> audio_buffer (fst st') = audio_buffer (fst st)
    | Raises _ st' \<Rightarrow> dispatched (snd st') = dispatched (snd st)
                         \<and> audio_buffer (fst st') = audio_buffer (fst st))"
  by (cases st) (simp add: handle_config_cases Let_def dispatched_def)

lemma ingest_conserves:
  assumes "st' = (let s1 = s\<lparr>audio_buffer := audio_buffer s @ b\<rparr>
                  in if 32000 \<le> length (audio_buffer s1) then process_audio_buffer e (s1, w)
                     else (s1, w))"
  shows "dispatched (snd st') @ audio_buffer (fst st') = dispatched w @ audio_buffer s @ b"
  using assms process_audio_buffer_conserves [of e "(s\<lparr>audio_buffer := audio_buffer s @ b\<rparr>, w)"]
  by (simp add: Let_def split: if_splits)

lemma deliver_conserves:
  "dispatched (snd (deliver e f st)) @ audio_buffer (fst (deliver e f st))
     = dispatched (snd st) @ audio_buffer (fst st) @ payload e f"
proof (cases st)
  case (Pair s w)
  show ?thesis
  proof (cases f)
    case (Binary_frame b)
    show ?thesis
    proof (cases "b = []")
      case True
      with Binary_frame show ?thesis by (simp add: receive_def)
    next
      case False
      with Binary_frame Pair show ?thesis
        by (simp add: receive_def handle_audio_binary_def ingest_conserves)
    qed
  next
    case (Text_frame t)
    show ?thesis
    proof (cases "t = []")
      case True
      with Text_frame show ?thesis by (simp add: receive_def)
    next
      case False
      show ?thesis
      proof (cases "json_loads e t")
        case (Inl exn)
        with False Text_frame show ?thesis by (simp add: receive_def send_error_conserves)
      next
        case (Inr v)
        show ?thesis
        proof (cases v)
          case (JDict data)
          let ?mt = "dict_get data (u ''type'') JNull"
          from False Text_frame Inr JDict
          have r: "deliver e f st =
                  (if ?mt = JString (u ''config'') then
                     (case handle_config e data st of
                        Returns _ st' \<Rightarrow> st'
                      | Raises exn st' \<Rightarrow> send_error (u ''Error processing message: '' @ exn) st')
                   else if ?mt = JString (u ''audio'') then handle_audio e data st
                   else if ?mt = JString (u ''end'') then handle_end e st
                   else send_error (u ''Unknown message type: '' @ py_str e ?mt) st)"
            and p: "payload e f =
                  (if ?mt = JString (u ''audio'') then
                     (case b64decode e (dict_get data (u ''data'') (JString [])) of
                        Inr b \<Rightarrow> b | Inl _ \<Rightarrow> [])
                   else [])"
            by (simp_all add: receive_def Let_def)
          consider (config) "?mt = JString (u ''config'')" | (audio) "?mt = JString (u ''audio'')"
            | (ending) "?mt = JString (u ''end'')"
            | (other) "?mt \<noteq> JString (u ''config'')" "?mt \<noteq> JString (u ''audio'')"
                "?mt \<noteq> JString (u ''end'')"
            by blast
          then show ?thesis
          proof cases
            case config
            with r p handle_config_conserves [where e = e and data = data and st = st] show ?thesis
              by (auto split: completion.splits)
          next
            case audio
            with r p Pair show ?thesis
              by (auto simp: handle_audio_def ingest_conserves split: sum.splits)
          next
            case ending
            with r p show ?thesis by simp
          next
            case other
            with r p show ?thesis by simp
          qed
        qed (use False Text_frame Inr in \<open>simp_all add: receive_def send_error_conserves\<close>)
      qed
    qed
  qed
qed

lemma deliver_all_conserves:
  "dispatched (snd (deliver_all e frames st)) @ audio_buffer (fst (deliver_all e frames st))
     = dispatched (snd st) @ audio_buffer (fst st) @ concat (map (payload e) frames)"
proof (induction frames arbitrary: st)
  case Nil
  then show ?case by simp
next
  case (Cons f fs)
  show ?case by (simp add: Cons.IH deliver_conserves)
qed

text \<open>
  Claim C1. An ingest is \<^verbatim>\<open>handle_audio_binary\<close> on the bytes of a binary frame, or
  \<^verbatim>\<open>handle_audio\<close> on an audio message whose payload decodes to the bytes. It dispatches a
  recognition call exactly when the buffer, with the new bytes appended, holds at least
  32000 bytes; the call is made before the ingest returns (it is in the log of the state
  returned), it is the only one, and it carries the whole buffer, which is the bytes
  held before followed by the new ones; the buffer is then empty. Below the threshold no
  call is made and the buffer keeps every byte. Over a whole run of frames of any kind no
  byte is lost and none is sent twice: the audio dispatched so far, followed by the buffer,
  is what it was before the run followed by the payloads of the frames.
\<close>

theorem ingest_flushes_at_threshold:
  assumes "ingest = handle_audio_binary e audio_bytes \<or>
           (ingest = handle_audio e data \<and>
            b64decode e (dict_get data (u ''data'') (JString [])) = Inr audio_bytes)"
      and "ingest (s, w) = (s', w')"
  shows "(if 32000 \<le> length (audio_buffer s @ audio_bytes)
          then calls w' = calls w @ [(audio_buffer s @ audio_bytes, language_code s,
                  transcribe_audio_stream e (length (calls w)) (audio_buffer s @ audio_bytes)
                    (language_code s))]
               \<and> audio_buffer s' = []
          else calls w' = calls w \<and> audio_buffer s' = audio_buffer s @ audio_bytes) \<and>
         (\<forall>frames st.
            dispatched (snd (deliver_all e frames st)) @ audio_buffer (fst (deliver_all e frames st))
              = dispatched (snd st) @ audio_buffer (fst st) @ concat (map (payload e) frames))"
proof -
  let ?s1 = "s\<lparr>audio_buffer := audio_buffer s @ audio_bytes\<rparr>"
  from assms have run: "(s', w') = (if 32000 \<le> length (audio_buffer ?s1)
                     then process_audio_buffer e (?s1, w) else (?s1, w))"
    by (auto simp: handle_audio_binary_def handle_audio_def Let_def)
  have step: "if 32000 \<le> length (audio_buffer s @ audio_bytes)
          then calls w' = calls w @ [(audio_buffer s @ audio_bytes, language_code s,
                  transcribe_audio_stream e (length (calls w)) (audio_buffer s @ audio_bytes)
                    (language_code s))]
               \<and> audio_buffer s' = []
          else calls w' = calls w \<and> audio_buffer s' = audio_buffer s @ audio_bytes"
  proof (cases "32000 \<le> length (audio_buffer s @ audio_bytes)")
    case True
    with run have "s' = fst (process_audio_buffer e (?s1, w))"
      and "w' = snd (process_audio_buffer e (?s1, w))"
      by (simp_all add: prod_eq_iff)
    with True show ?thesis by simp
  next
    case False
    with run show ?thesis by simp
  qed
  from step deliver_all_conserves show ?thesis by blast
qed

theorem ingest_flushes_at_threshold_witness:
  "handle_audio_binary demo_env second_of_audio (demo_consumer, fresh_world 0)
     = (fst (handle_audio_binary demo_env second_of_audio (demo_consumer, fresh_world 0)),
        snd (handle_audio_binary demo_env second_of_audio (demo_consumer, fresh_world 0)))
   \<and> calls (snd (handle_audio_binary demo_env second_of_audio (demo_consumer, fresh_world 0)))
       = [(second_of_audio, JString (u ''hi-IN''), Inr (Success (u ''vanakkam'')))]
   \<and> audio_buffer (fst (handle_audio_binary demo_env second_of_audio (demo_consumer, fresh_world 0)))
       = []"
proof -
  let ?st = "handle_audio_binary demo_env second_of_audio (demo_consumer, fresh_world 0)"
  have run: "?st = (fst ?st, snd ?st)" by simp
  have len: "32000 \<le> length (audio_buffer demo_consumer @ second_of_audio)"
    by simp
  from ingest_flushes_at_threshold [OF disjI1 [OF refl] run] len
  have "calls (snd ?st) = calls (fresh_world 0) @ [(audio_buffer demo_consumer @ second_of_audio,
      language_code demo_consumer, transcribe_audio_stream demo_env (length (calls (fresh_world 0)))
         (audio_buffer demo_consumer @ second_of_audio) (language_code demo_consumer))]
     \<and> audio_buffer (fst ?st) = []"
    by simp
  then show ?thesis
    by (simp add: demo_outcomes demo_consumer_simps fresh_world_simps)
qed

subsection \<open>The running transcript\<close>

lemma recognized_simps [simp]:
  "recognized [] = []"
  "recognized (cs @ cs') = recognized cs @ recognized cs'"
  "recognized [(a, l, Inr (Success t))] = [t]"
  "recognized [(a, l, Inr (Failure m))] = []"
  "recognized [(a, l, Inl exn)] = []"
  by (simp_all add: recognized_def)

lemma partials_simps [simp]:
  "partials [] = []"
  "partials (fs @ fs') = partials fs @ partials fs'"
  "partials [Transcription t ft fin] = [(t, ft)]"
  "partials [Error m] = []"
  "partials [Final t i l] = []"
  "partials [Config_confirmed l i] = []"
  "partials [Connected sid msg] = []"
  by (simp_all add: partials_def)

lemma ordered_snoc:
  assumes "ordered (s, w)"
    and "full_transcription s' = full_transcription s @ t @ u '' ''"
    and "recognized (calls w') = recognized (calls w) @ [t]"
    and "partials (sent w') = partials (sent w) @ [(t, strip (full_transcription s'))]"
  shows "ordered (s', w')"
proof -
  let ?ts = "recognized (calls w)"
  have full: "full_transcription s' = accumulated (?ts @ [t])"
    using assms by (simp add: ordered_def accumulated_snoc)
  have old: "map (\<lambda>k. ((?ts @ [t]) ! k, strip (accumulated (take (Suc k) (?ts @ [t])))))
               [0..<length ?ts]
           = map (\<lambda>k. (?ts ! k, strip (accumulated (take (Suc k) ?ts)))) [0..<length ?ts]"
    by (rule map_cong) (simp_all add: nth_append)
  have new: "map (\<lambda>k. ((?ts @ [t]) ! k, strip (accumulated (take (Suc k) (?ts @ [t])))))
               [0..<length (?ts @ [t])]
           = map (\<lambda>k. ((?ts @ [t]) ! k, strip (accumulated (take (Suc k) (?ts @ [t])))))
               [0..<length ?ts] @ [(t, strip (accumulated (?ts @ [t])))]"
    by simp
  have "partials (sent w') =
          map (\<lambda>k. (?ts ! k, strip (accumulated (take (Suc k) ?ts)))) [0..<length ?ts]
          @ [(t, strip (accumulated (?ts @ [t])))]"
    using assms(1,4) full by (simp add: ordered_def)
  then have "partials (sent w') =
          map (\<lambda>k. ((?ts @ [t]) ! k, strip (accumulated (take (Suc k) (?ts @ [t])))))
            [0..<length (?ts @ [t])]"
    by (simp only: new old)
  with full assms(3) show ?thesis by (simp add: ordered_def)
qed

lemma ordered_same:
  assumes "ordered st"
    and "full_transcription (fst st') = full_transcription (fst st)"
    and "recognized (calls (snd st')) = recognized (calls (snd st))"
    and "partials (sent (snd st')) = partials (sent (snd st))"
  shows "ordered st'"
  using assms by (simp add: ordered_def)

lemma process_audio_buffer_ordered:
  assumes "ordered st"
  shows "ordered (process_audio_buffer e st)"
proof -
  obtain s w where st: "st = (s, w)" by (cases st)
  obtain s' w' where st': "process_audio_buffer e (s, w) = (s', w')" by force
  let ?out = "transcribe_audio_stream e (length (calls w)) (audio_buffer s) (language_code s)"
  have f: "full_transcription s' =
             (case ?out of Inr (Success t) \<Rightarrow> full_transcription s @ t @ u '' ''
                         | _ \<Rightarrow> full_transcription s)"
    using process_audio_buffer_full [of e s w] st' by simp
  have c: "calls w' = calls w @ [(audio_buffer s, language_code s, ?out)]"
    using process_audio_buffer_calls [of e s w] st' by simp
  have m: "sent w' = sent w @
     [case ?out of
        Inr (Success t) \<Rightarrow> Transcription t (strip (full_transcription s @ t @ u '' '')) False
      | Inr (Failure m) \<Rightarrow> Error (u ''Transcription error: '' @ m)
      | Inl exn \<Rightarrow> Error (u ''Processing error: '' @ exn)]"
    using process_audio_buffer_sent [of e s w] st' by simp
  have "ordered (s', w')"
  proof (cases ?out)
    case (Inl exn)
    with f c m show ?thesis
      by (intro ordered_same [OF assms [unfolded st]]) simp_all
  next
    case (Inr res)
    show ?thesis
    proof (cases res)
      case (Success t)
      with Inr f c m show ?thesis
        by (intro ordered_snoc [OF assms [unfolded st], where t = t]) simp_all
    next
      case (Failure msg)
      with Inr f c m show ?thesis
        by (intro ordered_same [OF assms [unfolded st]]) simp_all
    qed
  qed
  with st st' show ?thesis by simp
qed

lemma send_error_ordered: "ordered st \<Longrightarrow> ordered (send_error m st)"
  by (erule ordered_same) simp_all

lemma handle_end_ordered:
  assumes "ordered st"
  shows "ordered (handle_end e st)"
proof -
  let ?st1 = "if audio_buffer (fst st) \<noteq> [] then process_audio_buffer e st else st"
  have "ordered ?st1" using assms by (simp add: process_audio_buffer_ordered)
  then show ?thesis
    by (rule ordered_same) (simp_all add: handle_end_eq Let_def)
qed

lemma ingest_ordered:
  assumes "ordered (s, w)"
  shows "ordered (let s1 = s\<lparr>audio_buffer := audio_buffer s @ b\<rparr>
                  in if 32000 \<le> length (audio_buffer s1) then process_audio_buffer e (s1, w)
                     else (s1, w))"
proof -
  have "ordered (s\<lparr>audio_buffer := audio_buffer s @ b\<rparr>, w)"
    using assms by (rule ordered_same) simp_all
  then show ?thesis by (simp add: Let_def process_audio_buffer_ordered)
qed

lemma handle_config_ordered:
  assumes "ordered st"
  shows "case handle_config e data st of Returns _ st' \<Rightarrow> ordered st'
                                        | Raises _ st' \<Rightarrow> ordered st'"
proof -
  obtain s w where st: "st = (s, w)" by (cases st)
  show ?thesis
    unfolding st handle_config_cases Let_def
    by (auto intro!: ordered_same [OF assms [unfolded st]])
qed

lemma receive_ordered:
  assumes "ordered st"
  shows "ordered (receive e td bd st)"
proof (induction rule: receive_cases)
  case ignored
  show ?case by (rule assms)
next
  case (error m)
  show ?case by (rule send_error_ordered [OF assms])
next
  case (config data st')
  with handle_config_ordered [OF assms, of e data] show ?case by simp
next
  case (config_error data exn st' m)
  with handle_config_ordered [OF assms, of e data] show ?case by (simp add: send_error_ordered)
next
  case (audio data)
  obtain s w where st: "st = (s, w)" by (cases st)
  show ?case
    using assms ingest_ordered [of s w _ e]
    by (simp add: st handle_audio_def send_error_ordered Let_def split: sum.splits)
next
  case (binary b)
  obtain s w where st: "st = (s, w)" by (cases st)
  show ?case
    using assms ingest_ordered [of s w b e] by (simp add: st handle_audio_binary_def)
next
  case ending
  show ?case by (rule handle_end_ordered [OF assms])
qed

lemma deliver_all_ordered: "ordered st \<Longrightarrow> ordered (deliver_all e frames st)"
proof (induction frames arbitrary: st)
  case Nil
  then show ?case by simp
next
  case (Cons f fs)
  have "ordered (deliver e f st)"
    using Cons.prems by (cases f) (simp_all add: receive_ordered)
  then show ?case using Cons.IH by simp
qed

text \<open>
  Claim C2. In a session that starts with no accumulated text, no recognition call made
  and no transcription frame sent, after any frames whatever: there is one transcription
  frame for each successful recognition call, and frame \<open>k\<close> (counting from 0) carries the
  transcript of the \<open>k\<close>-th successful call and, as \<^verbatim>\<open>full_text\<close>, the transcripts of
  the successful calls up to and including it, joined by single spaces and trimmed.
\<close>

theorem full_text_is_joined_prefix:
  assumes "full_transcription s = []" and "calls w = []" and "partials (sent w) = []"
    and "deliver_all e frames (s, w) = (s', w')"
    and "k < length (recognized (calls w'))"
  shows "length (partials (sent w')) = length (recognized (calls w')) \<and>
         partials (sent w') ! k =
           (recognized (calls w') ! k, strip (space_join (take (Suc k) (recognized (calls w')))))"
proof -
  have "ordered (s, w)"
    using assms(1-3) by (simp add: ordered_def accumulated_def)
  then have "ordered (deliver_all e frames (s, w))"
    by (rule deliver_all_ordered)
  then have "partials (sent w') =
       map (\<lambda>k. (recognized (calls w') ! k,
                 strip (accumulated (take (Suc k) (recognized (calls w'))))))
         [0..<length (recognized (calls w'))]"
    using assms(4) by (simp add: ordered_def)
  with assms(5) show ?thesis by (simp add: strip_accumulated)
qed

lemma three_flushes_calls:
  "calls (snd three_flushes) =
     [(second_of_audio, JString (u ''hi-IN''), Inr (Success (u ''vanakkam''))),
      (second_of_noise, JString (u ''hi-IN''),
       Inr (Failure (u ''503 Server Error: Service Unavailable''))),
      (second_of_audio, JString (u ''hi-IN''), Inr (Success (u ''nanri'')))]"
  by (simp add: three_flushes_def receive_binary handle_audio_binary_calls
      handle_audio_binary_consumer demo_outcomes demo_consumer_simps fresh_world_simps)

theorem full_text_is_joined_prefix_witness:
  "full_transcription demo_consumer = [] \<and> calls (fresh_world 0) = [] \<and>
   partials (sent (fresh_world 0)) = [] \<and>
   deliver_all demo_env
     [Binary_frame second_of_audio, Binary_frame second_of_noise, Binary_frame second_of_audio]
     (demo_consumer, fresh_world 0) = (fst three_flushes, snd three_flushes) \<and>
   1 < length (recognized (calls (snd three_flushes))) \<and>
   length (partials (sent (snd three_flushes))) = 2 \<and>
   partials (sent (snd three_flushes)) ! 1 = (u ''nanri'', u ''vanakkam nanri'')"
proof -
  have h1: "full_transcription demo_consumer = []" and h2: "calls (fresh_world 0) = []"
    and h3: "partials (sent (fresh_world 0)) = []"
    by (simp_all add: demo_consumer_simps fresh_world_simps)
  have run: "deliver_all demo_env
     [Binary_frame second_of_audio, Binary_frame second_of_noise, Binary_frame second_of_audio]
     (demo_consumer, fresh_world 0) = (fst three_flushes, snd three_flushes)"
    by (simp add: three_flushes_def)
  have r: "recognized (calls (snd three_flushes)) = [u ''vanakkam'', u ''nanri'']"
    by (simp add: three_flushes_calls recognized_def)
  then have k: "1 < length (recognized (calls (snd three_flushes)))" by simp
  have j: "strip (space_join [u ''vanakkam'', u ''nanri'']) = u ''vanakkam nanri''"
    by (simp add: strip_def u_def isspace_def)
  from full_text_is_joined_prefix [OF h1 h2 h3 run k] r j h1 h2 h3 run k
  show ?thesis by simp
qed

subsection \<open>The status of a record\<close>

lemma evolves_refl [simp]: "evolves w w"
  by (simp add: evolves_def)

lemma evolves_trans:
  assumes "evolves w w1" and "evolves w1 w2"
  shows "evolves w w2"
proof -
  have "store_ok w2 \<and> (\<forall>i r. objects w i = Some r \<longrightarrow>
          (\<exists>r2. objects w2 i = Some r2 \<and>
             (status r2 = status r \<or> status r2 = Completed \<or> status r2 = Failed)))"
    if ok: "store_ok w"
  proof (intro conjI allI impI)
    from ok assms(1) have ok1: "store_ok w1" unfolding evolves_def by blast
    with assms(2) show "store_ok w2" unfolding evolves_def by blast
    fix i r
    assume "objects w i = Some r"
    with ok assms(1) obtain r1 where r1: "objects w1 i = Some r1"
      "status r1 = status r \<or> status r1 = Completed \<or> status r1 = Failed"
      unfolding evolves_def by blast
    from r1(1) ok1 assms(2) obtain r2 where r2: "objects w2 i = Some r2"
      "status r2 = status r1 \<or> status r2 = Completed \<or> status r2 = Failed"
      unfolding evolves_def by blast
    from r1(2) r2 show "\<exists>r2. objects w2 i = Some r2 \<and>
             (status r2 = status r \<or> status r2 = Completed \<or> status r2 = Failed)"
      by auto
  qed
  then show ?thesis unfolding evolves_def by blast
qed

lemma evolves_send [simp]: "evolves w (send f w)"
  by (simp add: evolves_def store_ok_def)

lemma evolves_calls [simp]: "evolves w (w\<lparr>calls := c\<rparr>)"
  by (simp add: evolves_def store_ok_def)

lemma evolves_save:
  assumes "objects w i = Some r" and "status r' = status r \<or> status r' = Completed \<or> status r' = Failed"
  shows "evolves w (save i r' w)"
  using assms by (auto simp: evolves_def store_ok_def save_def)

lemma evolves_mark_transcription_failed [simp]: "evolves w (mark_transcription_failed s m w)"
  by (auto simp: mark_transcription_failed_def objects_get_def mark_as_failed_def
      intro: evolves_save split: option.splits)

lemma evolves_mark_transcription_completed [simp]: "evolves w (mark_transcription_completed s w)"
  by (auto simp: mark_transcription_completed_def objects_get_def mark_as_completed_def
      intro: evolves_save split: option.splits)

lemma evolves_update_transcription [simp]: "evolves w (update_transcription s t p w)"
  by (auto simp: update_transcription_def objects_get_def
      intro: evolves_save split: option.splits)

lemma evolves_send_error: "evolves (snd st) (snd (send_error m st))"
proof (cases st)
  case (Pair s w)
  have "evolves w (send (Error m) w)" by simp
  moreover have "evolves (send (Error m) w) (mark_transcription_failed s m (send (Error m) w))"
    by simp
  ultimately have "evolves w (mark_transcription_failed s m (send (Error m) w))"
    by (rule evolves_trans)
  then show ?thesis
    using Pair by (simp add: send_error_def Let_def)
qed

lemma evolves_process_audio_buffer: "evolves (snd st) (snd (process_audio_buffer e st))"
proof (cases st)
  case (Pair s w)
  let ?out = "transcribe_audio_stream e (length (calls w)) (audio_buffer s) (language_code s)"
  let ?w1 = "w\<lparr>calls := calls w @ [(audio_buffer s, language_code s, ?out)]\<rparr>"
  let ?s1 = "s\<lparr>audio_buffer := []\<rparr>"
  have 1: "evolves w ?w1" by simp
  have 2: "evolves ?w1 (snd (process_audio_buffer e (s, w)))"
  proof (cases ?out)
    case (Inl exn)
    then show ?thesis
      using evolves_send_error [where st = "(?s1, ?w1)"]
      by (simp add: process_audio_buffer_def transcribe_audio_def Let_def)
  next
    case (Inr res)
    show ?thesis
    proof (cases res)
      case (Success t)
      have "evolves ?w1 (send f (update_transcription s' t True ?w1))" for f s'
        by (rule evolves_trans [OF evolves_update_transcription evolves_send])
      with Inr Success show ?thesis
        by (simp add: process_audio_buffer_def transcribe_audio_def Let_def)
    next
      case (Failure msg)
      with Inr show ?thesis
        using evolves_send_error [where st = "(?s1, ?w1)"]
        by (simp add: process_audio_buffer_def transcribe_audio_def Let_def)
    qed
  qed
  from evolves_trans [OF 1 2] Pair show ?thesis by simp
qed

lemma evolves_handle_end: "evolves (snd st) (snd (handle_end e st))"
proof -
  let ?st1 = "if audio_buffer (fst st) \<noteq> [] then process_audio_buffer e st else st"
  have 1: "evolves (snd st) (snd ?st1)" by (simp add: evolves_process_audio_buffer)
  have 2: "evolves (snd ?st1) (snd (handle_end e st))"
    unfolding handle_end_eq Let_def snd_conv
    by (rule evolves_trans [OF evolves_mark_transcription_completed evolves_send])
  from 1 2 show ?thesis by (rule evolves_trans)
qed

lemma evolves_handle_config:
  "case handle_config e data st of Returns _ st' \<Rightarrow> evolves (snd st) (snd st')
                                  | Raises _ st' \<Rightarrow> evolves (snd st) (snd st')"
proof (cases st)
  case (Pair s w)
  have "evolves w (w\<lparr>objects := (objects w)(next_id w \<mapsto> r), next_id := Suc (next_id w), sent := m\<rparr>)"
    if "status r = Processing" for r m
    unfolding evolves_def store_ok_def by auto
  then show ?thesis
    unfolding Pair handle_config_cases Let_def by simp
qed

lemma evolves_receive: "evolves (snd st) (snd (receive e td bd st))"
proof (induction rule: receive_cases)
  case ignored
  show ?case by simp
next
  case (error m)
  show ?case by (rule evolves_send_error)
next
  case (config data st')
  with evolves_handle_config [where e = e and data = data and st = st] show ?case by simp
next
  case (config_error data exn st' m)
  with evolves_handle_config [where e = e and data = data and st = st] have "evolves (snd st) (snd st')" by simp
  then show ?case by (rule evolves_trans [OF _ evolves_send_error])
next
  case (audio data)
  obtain s w where st: "st = (s, w)" by (cases st)
  show ?case
    using evolves_process_audio_buffer [where e = e and st = "(s\<lparr>audio_buffer := audio_buffer s @ b\<rparr>, w)" for b]
      evolves_send_error [where st = st]
    by (simp add: st handle_audio_def Let_def split: sum.splits)
next
  case (binary b)
  obtain s w where st: "st = (s, w)" by (cases st)
  show ?case
    using evolves_process_audio_buffer [where e = e and st = "(s\<lparr>audio_buffer := audio_buffer s @ b\<rparr>, w)"]
    by (simp add: st handle_audio_binary_def Let_def)
next
  case ending
  show ?case by (rule evolves_handle_end)
qed

lemma evolves_deliver_all: "evolves (snd st) (snd (deliver_all e frames st))"
proof (induction frames arbitrary: st)
  case Nil
  show ?case by simp
next
  case (Cons f fs)
  have "evolves (snd st) (snd (deliver e f st))"
    by (cases f) (simp_all add: evolves_receive)
  from evolves_trans [OF this Cons.IH] show ?case by simp
qed

text \<open>
  Against claim C3 as it is stated, that a record never leaves a terminal state:
  \<^verbatim>\<open>mark_as_completed\<close> and \<^verbatim>\<open>mark_as_failed\<close> set the status whatever it was. A
  configuration frame, an unknown message and the end frame take record 1 from
  \<open>Processing\<close> to \<open>Failed\<close> and then to \<open>Completed\<close>.
\<close>

theorem failed_record_becomes_completed:
  "map_option status
     (objects (snd (deliver_all demo_env [Text_frame config_text, Text_frame ping_text]
                      (demo_consumer, fresh_world 0))) 1) = Some Failed \<and>
   map_option status
     (objects (snd (deliver_all demo_env
                      [Text_frame config_text, Text_frame ping_text, Text_frame end_text]
                      (demo_consumer, fresh_world 0))) 1) = Some Completed"
proof -
  have "receive demo_env (Some end_text) None st = handle_end demo_env st" for st
    by (simp add: receive_text [OF demo_texts_nonempty(3) demo_loads(3)] dict_get_def)
  then show ?thesis
    by (simp add: config_reaches_configured ping_fails_record handle_end_eq configured_simps
        mark_transcription_completed_def store_defs)
qed

text \<open>
  Claim C3, amended. When the keys in use are below the next key, after any frames every
  record is still there, and its status is what it was, or \<open>Completed\<close>, or \<open>Failed\<close>.
  So a record never returns to \<open>Pending\<close> or \<open>Processing\<close>, and a record in a terminal
  state is in a terminal state afterwards, though not always the same one.
\<close>

theorem status_changes_only_to_terminal:
  assumes "dom (objects w) \<subseteq> {..<next_id w}"
    and "objects w i = Some r"
    and "deliver_all e frames (s, w) = (s', w')"
  shows "\<exists>r'. objects w' i = Some r' \<and>
              (status r' = status r \<or> status r' = Completed \<or> status r' = Failed)"
  using evolves_deliver_all [of "(s, w)" e frames] assms
  by (simp add: evolves_def store_ok_def)

theorem status_changes_only_to_terminal_witness:
  "dom (objects (snd configured)) \<subseteq> {..<next_id (snd configured)} \<and>
   objects (snd configured) 1 = Some demo_record \<and>
   deliver_all demo_env [Text_frame ping_text, Text_frame end_text] (fst configured, snd configured)
     = (fst (deliver_all demo_env [Text_frame ping_text, Text_frame end_text] configured),
        snd (deliver_all demo_env [Text_frame ping_text, Text_frame end_text] configured)) \<and>
   (\<exists>r'. objects (snd (deliver_all demo_env [Text_frame ping_text, Text_frame end_text] configured)) 1
           = Some r' \<and>
         (status r' = status demo_record \<or> status r' = Completed \<or> status r' = Failed))"
proof -
  have h1: "dom (objects (snd configured)) \<subseteq> {..<next_id (snd configured)}"
    by (simp add: configured_simps)
  have h2: "objects (snd configured) 1 = Some demo_record"
    by (simp add: configured_simps)
  have h3: "deliver_all demo_env [Text_frame ping_text, Text_frame end_text]
       (fst configured, snd configured)
     = (fst (deliver_all demo_env [Text_frame ping_text, Text_frame end_text] configured),
        snd (deliver_all demo_env [Text_frame ping_text, Text_frame end_text] configured))"
    by simp
  from status_changes_only_to_terminal [OF h1 h2 h3] h1 h2 h3 show ?thesis by blast
qed

subsection \<open>Frames that do not decode\<close>

text \<open>
  Against claim C4 as it is stated, that a malformed frame leaves the record of the
  session as it was: every error goes through \<^verbatim>\<open>send_error\<close>, which marks the record
  of the session as failed. After the configuration frame record 1 is \<open>Processing\<close>, and
  a truncated frame after it makes it \<open>Failed\<close>.
\<close>

theorem malformed_frame_fails_record:
  "map_option status
     (objects (snd (deliver_all demo_env [Text_frame config_text] (demo_consumer, fresh_world 0))) 1)
     = Some Processing \<and>
   map_option status
     (objects (snd (deliver_all demo_env [Text_frame config_text, Text_frame bad_text]
                      (demo_consumer, fresh_world 0))) 1) = Some Failed"
proof -
  have "receive demo_env (Some bad_text) None st = send_error (u ''Invalid JSON format'') st" for st
    using demo_texts_nonempty(4) by (simp add: receive_def demo_loads)
  then show ?thesis
    by (simp add: config_reaches_configured configured_simps send_error_objects_failed
        [where s = "fst configured" and w = "snd configured", simplified] demo_record_def)
qed

text \<open>
  Claim C4, amended. A textual frame that is not empty and is malformed (it does not
  parse, or parses to something that is not an object) or is an audio message whose payload
  does not decode: the consumer is left exactly as it was (buffer, accumulated text,
  language, record id), one error frame is sent, and nothing else in the world changes
  but the record of the session, when it has one: that record is marked failed with the
  message of the frame.
\<close>

theorem decode_error_keeps_session_fails_record:
  assumes "t \<noteq> []"
    and "(\<exists>exn. json_loads e t = Inl exn) \<or>
         (\<exists>v. json_loads e t = Inr v \<and> (\<forall>d. v \<noteq> JDict d)) \<or>
         (\<exists>d exn. json_loads e t = Inr (JDict d) \<and>
                   dict_get d (u ''type'') JNull = JString (u ''audio'') \<and>
                   b64decode e (dict_get d (u ''data'') (JString [])) = Inl exn)"
    and "receive e (Some t) bd (s, w) = (s', w')"
  shows "s' = s \<and>
         (\<exists>m. w' = w\<lparr>sent := sent w @ [Error m],
                      objects :=
                        (case transcription_id s of
                           None \<Rightarrow> objects w
                         | Some i \<Rightarrow>
                             if i = 0 then objects w
                             else (case objects w i of
                                     None \<Rightarrow> objects w
                                   | Some r \<Rightarrow>
                                       (objects w)(i \<mapsto> r\<lparr>status := Failed, error_message := m,
                                                          completed_at := Some (now w)\<rparr>)))\<rparr>)"
proof -
  have "\<exists>m. receive e (Some t) bd (s, w) = send_error m (s, w)"
    using assms(2)
  proof (elim disjE exE conjE)
    fix exn
    assume "json_loads e t = Inl exn"
    with assms(1) have "receive e (Some t) bd (s, w) = send_error (u ''Invalid JSON format'') (s, w)"
      by (simp add: receive_def)
    then show ?thesis by blast
  next
    fix v
    assume "json_loads e t = Inr v" and "\<forall>d. v \<noteq> JDict d"
    with assms(1) have "receive e (Some t) bd (s, w) =
        send_error (u ''Error processing message: '' @ attribute_error v) (s, w)"
      by (cases v) (simp_all add: receive_def)
    then show ?thesis by blast
  next
    fix d exn
    assume "json_loads e t = Inr (JDict d)"
      and "dict_get d (u ''type'') JNull = JString (u ''audio'')"
      and "b64decode e (dict_get d (u ''data'') (JString [])) = Inl exn"
    with assms(1) have "receive e (Some t) bd (s, w) =
        send_error (u ''Error processing audio: '' @ exn) (s, w)"
      by (simp add: receive_text handle_audio_def)
    then show ?thesis by blast
  qed
  then obtain m where "(s', w') = send_error m (s, w)"
    using assms(3) by auto
  then show ?thesis
    by (auto simp: send_error_eq mark_as_failed_def split: option.splits)
qed

theorem decode_error_keeps_session_fails_record_witness:
  "bad_text \<noteq> [] \<and>
   json_loads demo_env bad_text = Inl (u ''Expecting value: line 1 column 1 (char 0)'') \<and>
   receive demo_env (Some bad_text) None (fst configured, snd configured)
     = (fst (receive demo_env (Some bad_text) None configured),
        snd (receive demo_env (Some bad_text) None configured)) \<and>
   fst (receive demo_env (Some bad_text) None configured) = fst configured \<and>
   (\<exists>m. snd (receive demo_env (Some bad_text) None configured) =
          (snd configured)\<lparr>sent := sent (snd configured) @ [Error m],
             objects := [1 \<mapsto> demo_record\<lparr>status := Failed, error_message := m,
                                            completed_at := Some 0\<rparr>]\<rparr>)"
proof -
  have h1: "bad_text \<noteq> []" by (rule demo_texts_nonempty)
  have l: "json_loads demo_env bad_text = Inl (u ''Expecting value: line 1 column 1 (char 0)'')"
    by (rule demo_loads)
  have h3: "receive demo_env (Some bad_text) None (fst configured, snd configured)
     = (fst (receive demo_env (Some bad_text) None configured),
        snd (receive demo_env (Some bad_text) None configured))"
    by simp
  have h2: "(\<exists>exn. json_loads demo_env bad_text = Inl exn) \<or>
         (\<exists>v. json_loads demo_env bad_text = Inr v \<and> (\<forall>d. v \<noteq> JDict d)) \<or>
         (\<exists>d exn. json_loads demo_env bad_text = Inr (JDict d) \<and>
                   dict_get d (u ''type'') JNull = JString (u ''audio'') \<and>
                   b64decode demo_env (dict_get d (u ''data'') (JString [])) = Inl exn)"
    using l by simp
  from decode_error_keeps_session_fails_record [OF h1 h2 h3] h1 l h3
  show ?thesis by (simp add: configured_simps)
qed

subsection \<open>The end of the stream\<close>

text \<open>
  Claim C5. On a frame that decodes to an \<^verbatim>\<open>end\<close> message: with an empty buffer no
  recognition call is made, and the only frame sent is the final one, whose text is the
  trimmed accumulated text as it was; with bytes in the buffer exactly one recognition call
  is made, on those bytes, its frame is sent, and the final frame follows. In both cases the
  buffer is empty afterwards, the final frame carries the trimmed accumulated text, the
  record id and the language, and the record of the session, when it exists, is completed
  with that text at the current time.
\<close>

theorem end_flushes_remainder_and_completes:
  assumes "t \<noteq> []" and "json_loads e t = Inr (JDict data)"
    and "dict_get data (u ''type'') JNull = JString (u ''end'')"
    and "receive e (Some t) bd (s, w) = (s', w')"
  shows "(if audio_buffer s = []
          then calls w' = calls w \<and>
               sent w' = sent w @ [Final (strip (full_transcription s)) (transcription_id s)
                                    (language_code s)]
          else calls w' = calls w @ [(audio_buffer s, language_code s,
                 transcribe_audio_stream e (length (calls w)) (audio_buffer s) (language_code s))] \<and>
               (\<exists>f. sent w' = sent w @ [f, Final (strip (full_transcription s'))
                                              (transcription_id s) (language_code s)])) \<and>
         audio_buffer s' = [] \<and>
         (\<forall>i r. transcription_id s = Some i \<and> objects w i = Some r \<longrightarrow>
            (\<exists>r'. objects w' i = Some r' \<and> status r' = Completed \<and>
                  transcription_text r' = strip (full_transcription s') \<and>
                  completed_at r' = Some (now w)))"
proof -
  have run: "handle_end e (s, w) = (s', w')"
    using assms by (simp add: receive_text)
  let ?st1 = "if audio_buffer s \<noteq> [] then process_audio_buffer e (s, w) else (s, w)"
  have s': "s' = fst ?st1"
    and w': "w' = send (Final (strip (full_transcription (fst ?st1))) (transcription_id (fst ?st1))
                          (language_code (fst ?st1)))
                    (mark_transcription_completed (fst ?st1) (snd ?st1))"
    using run by (auto simp add: handle_end_eq Let_def split: if_splits)
  have calls: "calls w' = calls (snd ?st1)" and sent: "sent w' = sent (snd ?st1) @
      [Final (strip (full_transcription s')) (transcription_id s) (language_code s)]"
    using s' w' by simp_all
  have 1: "if audio_buffer s = []
          then calls w' = calls w \<and>
               sent w' = sent w @ [Final (strip (full_transcription s)) (transcription_id s)
                                    (language_code s)]
          else calls w' = calls w @ [(audio_buffer s, language_code s,
                 transcribe_audio_stream e (length (calls w)) (audio_buffer s) (language_code s))] \<and>
               (\<exists>f. sent w' = sent w @ [f, Final (strip (full_transcription s'))
                                              (transcription_id s) (language_code s)])"
    using calls sent s' by (simp add: process_audio_buffer_sent)
  have 2: "audio_buffer s' = []"
    using s' by simp
  have 3: "\<exists>r'. objects w' i = Some r' \<and> status r' = Completed \<and>
                  transcription_text r' = strip (full_transcription s') \<and>
                  completed_at r' = Some (now w)"
    if "transcription_id s = Some i" and "objects w i = Some r" for i r
  proof -
    have "i \<in> dom (objects (snd ?st1))"
      using that(2) by (auto simp: process_audio_buffer_dom)
    then obtain r1 where r1: "objects (snd ?st1) i = Some r1" by blast
    have tid: "transcription_id (fst ?st1) = Some i" using that(1) by simp
    have nw: "now (snd ?st1) = now w" by simp
    show ?thesis
      unfolding w' s'
      using r1 tid nw
      by (simp add: mark_transcription_completed_def store_defs del: process_audio_buffer_socket)
  qed
  from 1 2 3 show ?thesis by blast
qed

theorem end_flushes_remainder_and_completes_witness:
  "end_text \<noteq> [] \<and> json_loads demo_env end_text = Inr (JDict [(u ''type'', JString (u ''end''))]) \<and>
   dict_get [(u ''type'', JString (u ''end''))] (u ''type'') JNull = JString (u ''end'') \<and>
   receive demo_env (Some end_text) None (fst configured, snd configured)
     = (fst (receive demo_env (Some end_text) None configured),
        snd (receive demo_env (Some end_text) None configured)) \<and>
   transcription_id (fst configured) = Some 1 \<and> objects (snd configured) 1 = Some demo_record \<and>
   calls (snd (receive demo_env (Some end_text) None configured)) = [] \<and>
   sent (snd (receive demo_env (Some end_text) None configured)) =
     [Config_confirmed (JString (u ''ta-IN'')) (Some 1), Final [] (Some 1) (JString (u ''ta-IN''))] \<and>
   (\<exists>r'. objects (snd (receive demo_env (Some end_text) None configured)) 1 = Some r' \<and>
         status r' = Completed \<and>
         transcription_text r' = strip (full_transcription (fst (receive demo_env (Some end_text) None configured))) \<and>
         completed_at r' = Some 0)"
proof -
  have h1: "end_text \<noteq> []" by (rule demo_texts_nonempty)
  have h2: "json_loads demo_env end_text = Inr (JDict [(u ''type'', JString (u ''end''))])"
    by (rule demo_loads)
  have h3: "dict_get [(u ''type'', JString (u ''end''))] (u ''type'') JNull = JString (u ''end'')"
    by (simp add: dict_get_def)
  have h4: "receive demo_env (Some end_text) None (fst configured, snd configured)
     = (fst (receive demo_env (Some end_text) None configured),
        snd (receive demo_env (Some end_text) None configured))"
    by simp
  have p: "transcription_id (fst configured) = Some 1 \<and> objects (snd configured) 1 = Some demo_record"
    by (simp add: configured_simps)
  from end_flushes_remainder_and_completes [OF h1 h2 h3 h4] h1 h2 h3 h4 p
  show ?thesis by (simp add: configured_simps strip_def)
qed

text \<open>
  The text of the final frame after an empty buffer is the last \<^verbatim>\<open>full_text\<close> sent: under
  the invariant of the running transcript, the last transcription frame carried the
  trimmed accumulated text.
\<close>

lemma last_full_text:
  assumes "ordered st" and "partials (sent (snd st)) \<noteq> []"
  shows "snd (last (partials (sent (snd st)))) = strip (full_transcription (fst st))"
proof -
  let ?ts = "recognized (calls (snd st))"
  from assms have n: "?ts \<noteq> []" by (auto simp: ordered_def)
  then have "[0..<length ?ts] \<noteq> []" by simp
  then have "last (partials (sent (snd st))) =
               (?ts ! (length ?ts - 1), strip (accumulated (take (Suc (length ?ts - 1)) ?ts)))"
    using assms(1) by (simp add: ordered_def last_map)
  with n assms(1) show ?thesis by (simp add: ordered_def)
qed

subsection \<open>A recognition call that fails\<close>

text \<open>
  Claim C6. A flush whose recognition call fails, by returning an error payload or by
  raising: one error frame is sent with the error; the record of the session, when it
  exists, is marked failed with that message at the current time; the socket is neither
  closed nor otherwise touched; the buffer is empty; and the next ingest that reaches the
  threshold dispatches the next recognition call.
\<close>

theorem recognition_failure_is_contained:
  assumes "transcribe_audio_stream e (length (calls w)) (audio_buffer s) (language_code s) = out"
    and "out = Inr (Failure msg) \<and> m = u ''Transcription error: '' @ msg \<or>
         out = Inl exn \<and> m = u ''Processing error: '' @ exn"
    and "process_audio_buffer e (s, w) = (s', w')"
  shows "sent w' = sent w @ [Error m] \<and>
         (\<forall>i r. transcription_id s = Some i \<and> i \<noteq> 0 \<and> objects w i = Some r \<longrightarrow>
            objects w' i =
              Some (r\<lparr>status := Failed, error_message := m, completed_at := Some (now w)\<rparr>)) \<and>
         close_code w' = close_code w \<and> accepted w' = accepted w \<and>
         audio_buffer s' = [] \<and>
         (\<forall>b. 32000 \<le> length b \<longrightarrow>
            calls (snd (handle_audio_binary e b (s', w'))) =
              calls w @ [(audio_buffer s, language_code s, out),
                         (b, language_code s,
                          transcribe_audio_stream e (Suc (length (calls w))) b (language_code s))])"
proof -
  let ?s1 = "s\<lparr>audio_buffer := []\<rparr>"
  let ?w1 = "w\<lparr>calls := calls w @ [(audio_buffer s, language_code s, out)]\<rparr>"
  have run: "(s', w') = send_error m (?s1, ?w1)"
    using assms by (auto simp: process_audio_buffer_eq Let_def)
  then have s': "s' = ?s1" and w': "w' = snd (send_error m (?s1, ?w1))"
    by (simp_all add: prod_eq_iff)
  have a: "sent w' = sent w @ [Error m]" "close_code w' = close_code w" "accepted w' = accepted w"
    "audio_buffer s' = []" "calls w' = calls w @ [(audio_buffer s, language_code s, out)]"
    using s' w' by simp_all
  have b: "objects w' i =
              Some (r\<lparr>status := Failed, error_message := m, completed_at := Some (now w)\<rparr>)"
    if "transcription_id s = Some i" "i \<noteq> 0" "objects w i = Some r" for i r
    using that w' by (simp add: send_error_eq mark_as_failed_def)
  have c: "calls (snd (handle_audio_binary e b (s', w'))) =
              calls w @ [(audio_buffer s, language_code s, out),
                         (b, language_code s,
                          transcribe_audio_stream e (Suc (length (calls w))) b (language_code s))]"
    if "32000 \<le> length b" for b
    using that a(4,5) s' by (simp add: handle_audio_binary_def Let_def)
  from a b c show ?thesis by blast
qed

theorem recognition_failure_is_contained_witness:
  "transcribe_audio_stream demo_env (length (calls (snd configured))) second_of_noise
     (JString (u ''ta-IN'')) = Inr (Failure (u ''503 Server Error: Service Unavailable'')) \<and>
   process_audio_buffer demo_env ((fst configured)\<lparr>audio_buffer := second_of_noise\<rparr>, snd configured)
     = (fst (process_audio_buffer demo_env
               ((fst configured)\<lparr>audio_buffer := second_of_noise\<rparr>, snd configured)),
        snd (process_audio_buffer demo_env
               ((fst configured)\<lparr>audio_buffer := second_of_noise\<rparr>, snd configured))) \<and>
   transcription_id (fst configured) = Some 1 \<and> objects (snd configured) 1 = Some demo_record \<and>
   32000 \<le> length second_of_audio \<and>
   sent (snd (process_audio_buffer demo_env
                ((fst configured)\<lparr>audio_buffer := second_of_noise\<rparr>, snd configured)))
     = [Config_confirmed (JString (u ''ta-IN'')) (Some 1),
        Error (u ''Transcription error: 503 Server Error: Service Unavailable'')] \<and>
   objects (snd (process_audio_buffer demo_env
                   ((fst configured)\<lparr>audio_buffer := second_of_noise\<rparr>, snd configured))) 1
     = Some (demo_record\<lparr>status := Failed,
               error_message := u ''Transcription error: 503 Server Error: Service Unavailable'',
               completed_at := Some 0\<rparr>) \<and>
   close_code (snd (process_audio_buffer demo_env
                      ((fst configured)\<lparr>audio_buffer := second_of_noise\<rparr>, snd configured)))
     = None \<and>
   calls (snd (handle_audio_binary demo_env second_of_audio
                 (process_audio_buffer demo_env
                    ((fst configured)\<lparr>audio_buffer := second_of_noise\<rparr>, snd configured))))
     = [(second_of_noise, JString (u ''ta-IN''),
         Inr (Failure (u ''503 Server Error: Service Unavailable''))),
        (second_of_audio, JString (u ''ta-IN''), Inr (Success (u ''nanri'')))]"
proof -
  let ?s = "(fst configured)\<lparr>audio_buffer := second_of_noise\<rparr>"
  let ?st' = "process_audio_buffer demo_env (?s, snd configured)"
  have h1: "transcribe_audio_stream demo_env (length (calls (snd configured))) (audio_buffer ?s)
              (language_code ?s) = Inr (Failure (u ''503 Server Error: Service Unavailable''))"
    by (simp add: demo_outcomes)
  have h2: "Inr (Failure (u ''503 Server Error: Service Unavailable'')) =
              Inr (Failure (u ''503 Server Error: Service Unavailable'')) \<and>
            u ''Transcription error: 503 Server Error: Service Unavailable'' =
              u ''Transcription error: '' @ u ''503 Server Error: Service Unavailable'' \<or>
            Inr (Failure (u ''503 Server Error: Service Unavailable'')) = Inl [] \<and>
            u ''Transcription error: 503 Server Error: Service Unavailable'' =
              u ''Processing error: '' @ []"
    by (simp flip: u_append)
  have h3: "?st' = (fst ?st', snd ?st')" by simp
  have p: "transcription_id ?s = Some 1 \<and> (1::nat) \<noteq> 0 \<and> objects (snd configured) 1 = Some demo_record"
    by (simp add: configured_simps)
  have q: "32000 \<le> length second_of_audio" by simp
  from recognition_failure_is_contained [OF h1 h2 h3] p q
  have "sent (snd ?st') = sent (snd configured) @
          [Error (u ''Transcription error: 503 Server Error: Service Unavailable'')]"
    and "objects (snd ?st') 1 = Some (demo_record\<lparr>status := Failed,
               error_message := u ''Transcription error: 503 Server Error: Service Unavailable'',
               completed_at := Some (now (snd configured))\<rparr>)"
    and "close_code (snd ?st') = close_code (snd configured)"
    and "calls (snd (handle_audio_binary demo_env second_of_audio (fst ?st', snd ?st'))) =
           calls (snd configured) @
             [(audio_buffer ?s, language_code ?s,
               Inr (Failure (u ''503 Server Error: Service Unavailable''))),
              (second_of_audio, language_code ?s,
               transcribe_audio_stream demo_env (Suc (length (calls (snd configured))))
                 second_of_audio (language_code ?s))]"
    by blast+
  with h1 p q show ?thesis
    by (simp add: configured_simps demo_outcomes fresh_world_def configured_def)
qed

subsection \<open>The authentication gate\<close>

text \<open>
  Claim C7. A connection whose query string has no token, or an empty one, or a token that
  the verifier rejects, or a token of a user that does not exist: \<^verbatim>\<open>connect\<close> closes it
  with code 4001 without accepting it, and the session as a whole, whatever frames the
  client has ready, ends in that same state: nothing is sent, no frame is handled, and the
  table of records is as it was.
\<close>

theorem unauthenticated_connection_is_refused:
  assumes "query_token sc = None \<or> query_token sc = Some [] \<or>
           (\<exists>t exn. query_token sc = Some t \<and> access_token e t = Inl exn) \<or>
           (\<exists>t uid. query_token sc = Some t \<and> access_token e t = Inr uid \<and> users e uid = None)"
  shows "connect e (JWTAuthMiddleware_call e sc) (init_consumer, w) =
           (init_consumer\<lparr>user := Some AnonymousUser\<rparr>, w\<lparr>close_code := Some 4001\<rparr>) \<and>
         serve e sc frames w =
           (init_consumer\<lparr>user := Some AnonymousUser\<rparr>, w\<lparr>close_code := Some 4001\<rparr>)"
proof -
  have "scope_user (JWTAuthMiddleware_call e sc) = Some AnonymousUser"
    using assms
    by (auto simp: JWTAuthMiddleware_call_def get_user_from_token_def split: option.splits)
  then have "connect e (JWTAuthMiddleware_call e sc) (init_consumer, w) =
           (init_consumer\<lparr>user := Some AnonymousUser\<rparr>, w\<lparr>close_code := Some 4001\<rparr>)"
    by (simp add: connect_def close_def)
  then show ?thesis by (simp add: serve_def)
qed

theorem unauthenticated_connection_is_refused_witness:
  "query_token \<lparr>query_token = Some (u ''forged''), scope_user = None\<rparr> = Some (u ''forged'') \<and>
   access_token demo_env (u ''forged'') = Inl (u ''Token is invalid or expired'') \<and>
   serve demo_env \<lparr>query_token = Some (u ''forged''), scope_user = None\<rparr>
     [Text_frame config_text, Binary_frame second_of_audio, Text_frame end_text] (fresh_world 0)
     = (init_consumer\<lparr>user := Some AnonymousUser\<rparr>, (fresh_world 0)\<lparr>close_code := Some 4001\<rparr>)"
proof -
  let ?sc = "\<lparr>query_token = Some (u ''forged''), scope_user = None\<rparr>"
  have a: "query_token ?sc = Some (u ''forged'')" by simp
  have b: "access_token demo_env (u ''forged'') = Inl (u ''Token is invalid or expired'')"
    by (simp add: demo_env_simps)
  have h: "query_token ?sc = None \<or> query_token ?sc = Some [] \<or>
           (\<exists>t exn. query_token ?sc = Some t \<and> access_token demo_env t = Inl exn) \<or>
           (\<exists>t uid. query_token ?sc = Some t \<and> access_token demo_env t = Inr uid \<and>
                     users demo_env uid = None)"
    using a b by blast
  from unauthenticated_connection_is_refused [OF h] a b show ?thesis by blast
qed

text \<open>A good token, for comparison, is accepted and the frames are handled.\<close>

lemma authenticated_connection_is_accepted:
  "fst (serve demo_env \<lparr>query_token = Some (u ''good''), scope_user = None\<rparr> [] (fresh_world 0))
     = demo_consumer \<and>
   accepted (snd (serve demo_env \<lparr>query_token = Some (u ''good''), scope_user = None\<rparr> []
                    (fresh_world 0)))"
  by (simp add: serve_def JWTAuthMiddleware_call_def get_user_from_token_def demo_env_simps
      connect_def accept_def send_def demo_consumer_def fresh_world_def)

subsection \<open>The bound on the buffer\<close>

lemma handle_audio_binary_buffer:
  "length (audio_buffer (fst (handle_audio_binary e b st))) < 32000"
  by (cases st) (simp add: handle_audio_binary_def Let_def)

lemma handle_audio_buffer:
  "length (audio_buffer (fst st)) < 32000 \<Longrightarrow>
   length (audio_buffer (fst (handle_audio e d st))) < 32000"
  by (cases st) (simp add: handle_audio_def Let_def split: sum.splits)

lemma receive_buffer_below:
  assumes "length (audio_buffer (fst st)) < 32000"
  shows "length (audio_buffer (fst (receive e td bd st))) < 32000"
  using assms
  by (cases st)
     (auto simp: receive_def handle_audio_binary_buffer handle_audio_buffer handle_config_cases
        Let_def split: sum.splits json.splits completion.splits if_splits)

text \<open>
  Claim C8. The buffer of a session is empty at the start; when it is below 32000 bytes,
  it is below 32000 bytes after any sequence of frames, of any kind, has been handled, and
  so after each of them.
\<close>

theorem buffer_stays_below_threshold:
  "length (audio_buffer (fst st)) < 32000 \<Longrightarrow>
   length (audio_buffer (fst (deliver_all e frames st))) < 32000"
proof (induction frames arbitrary: st)
  case Nil
  then show ?case by simp
next
  case (Cons f fs)
  have "length (audio_buffer (fst (deliver e f st))) < 32000"
    using Cons.prems by (cases f) (simp_all add: receive_buffer_below)
  then show ?case using Cons.IH by simp
qed

theorem buffer_stays_below_threshold_witness:
  "length (audio_buffer (fst (demo_consumer, fresh_world 0))) < 32000 \<and>
   length (audio_buffer (fst (deliver_all demo_env
      [Binary_frame second_of_audio, Text_frame bad_text, Binary_frame [1, 2, 3], Text_frame end_text]
      (demo_consumer, fresh_world 0)))) < 32000"
proof -
  have h: "length (audio_buffer (fst (demo_consumer, fresh_world 0))) < 32000"
    by (simp add: demo_consumer_simps)
  from buffer_stays_below_threshold [OF h] h show ?thesis by blast
qed

subsection \<open>Configuration\<close>



subsection \<open>Errors and the record\<close>

lemma receive_error_marks_failed:
  assumes "transcription_id s = Some i" and "i \<noteq> 0" and "objects w i = Some r"
    and "sent (snd (receive e td bd (s, w))) = sent w @ [Error m]"
  shows "objects (snd (receive e td bd (s, w))) i =
           Some (r\<lparr>status := Failed, error_message := m, completed_at := Some (now w)\<rparr>)"
  using assms(4)
proof (induction rule: receive_cases)
  case ignored
  then show ?case by simp
next
  case (error m')
  then show ?case using assms(1-3) by (simp add: send_error_objects_failed)
next
  case (config data st')
  then show ?case by (auto simp: handle_config_cases Let_def split: if_splits)
next
  case (config_error data exn st' m')
  then show ?case using assms(1-3)
    by (auto simp: handle_config_cases Let_def send_error_objects_failed split: if_splits)
next
  case (audio data)
  then show ?case using assms(1-3)
    by (auto simp: handle_audio_def Let_def send_error_objects_failed process_audio_buffer_eq
        split: sum.splits if_splits result.splits)
next
  case (binary b)
  then show ?case using assms(1-3)
    by (auto simp: handle_audio_binary_def Let_def send_error_objects_failed process_audio_buffer_eq
        split: sum.splits if_splits result.splits)
next
  case ending
  then show ?case by (simp add: handle_end_eq Let_def)
qed

text \<open>
  Claim C10. In a session whose record id is set and whose record exists,
  \<^verbatim>\<open>send_error\<close>, the only place that builds an error frame, sends the frame and sets the
  record to failed with the message of the frame and the current time. So whenever
  \<^verbatim>\<open>receive\<close> answers a frame, of whatever kind, with an error frame as the last frame
  sent, the record is failed with that message.
\<close>

theorem reported_error_marks_record_failed:
  assumes "transcription_id s = Some i" and "i \<noteq> 0" and "objects w i = Some r"
  shows "sent (snd (send_error m (s, w))) = sent w @ [Error m] \<and>
         objects (snd (send_error m (s, w))) i =
           Some (r\<lparr>status := Failed, error_message := m, completed_at := Some (now w)\<rparr>) \<and>
         (sent (snd (receive e td bd (s, w))) = sent w @ [Error m] \<longrightarrow>
          objects (snd (receive e td bd (s, w))) i =
            Some (r\<lparr>status := Failed, error_message := m, completed_at := Some (now w)\<rparr>))"
  using assms receive_error_marks_failed [OF assms]
  by (simp add: send_error_objects_failed)

theorem reported_error_marks_record_failed_witness:
  "transcription_id (fst configured) = Some 1 \<and> (1::nat) \<noteq> 0 \<and>
   objects (snd configured) 1 = Some demo_record \<and>
   sent (snd (receive demo_env (Some ping_text) None (fst configured, snd configured)))
     = sent (snd configured) @ [Error (u ''Unknown message type: ping'')] \<and>
   objects (snd (receive demo_env (Some ping_text) None (fst configured, snd configured))) 1
     = Some (demo_record\<lparr>status := Failed, error_message := u ''Unknown message type: ping'',
                           completed_at := Some 0\<rparr>) \<and>
   objects (snd (send_error (u ''Unknown message type: ping'') (fst configured, snd configured))) 1
     = Some (demo_record\<lparr>status := Failed, error_message := u ''Unknown message type: ping'',
                           completed_at := Some 0\<rparr>)"
proof -
  have h1: "transcription_id (fst configured) = Some 1" and h2: "(1::nat) \<noteq> 0"
    and h3: "objects (snd configured) 1 = Some demo_record"
    by (simp_all add: configured_simps)
  have p: "sent (snd (receive demo_env (Some ping_text) None (fst configured, snd configured)))
     = sent (snd configured) @ [Error (u ''Unknown message type: ping'')]"
    by (simp add: ping_fails_record)
  from reported_error_marks_record_failed [OF h1 h2 h3, of "u ''Unknown message type: ping''"
      demo_env "Some ping_text" None] p h1 h2 h3
  show ?thesis by (simp add: configured_simps)
qed

end
